theory Spec2Isabelle
  imports Complex_Main "HOL-Library.Sublist" "HOL-Library.Multiset"
begin

section \<open>JavaScript values\<close>

text \<open>
  A JavaScript string is a sequence of UTF-16 code units. A code unit is modelled by its
  numeric value, so every string the program can receive is a list of naturals below
  65536 (the functions below are defined on every list). String literals of the source are
  ASCII and are written \<open>js ''...''\<close>.
\<close>

type_synonym js_string = "nat list"

definition js :: "string \<Rightarrow> js_string" where
  "js s = map of_char s"

text \<open>
  Integers are modelled as \<open>int\<close>, the quotient of two integers and a value of
  \<open>Math.random()\<close> as \<open>rat\<close>. \<open>Math.round\<close> rounds to the nearest integer and, of
  two equally close integers, to the one nearer to plus infinity.
\<close>

definition Math_round :: "rat \<Rightarrow> int" where
  "Math_round x = \<lfloor>x + 1 / 2\<rfloor>"

subsection \<open>Double arithmetic\<close>

text \<open>
  A JavaScript number is a binary64 double, and the product or the difference of two
  numbers is the exact result rounded to the nearest double, to the one with an even
  significand when two doubles are equally near. \<open>ulp_of x\<close> is the distance between
  neighbouring doubles at a positive \<open>x\<close>: \<open>2 ^ 52\<close> steps from 1 to 2, twice as wide
  each time \<open>x\<close> doubles and half as wide each time it halves (a significand of 53 bits).
  The exponent is not bounded, so \<open>to_double\<close> is the rounding of binary64 for every
  result that is 0 or has a magnitude from \<open>2 ^ -1022\<close> to below \<open>2 ^ 1024\<close>.
\<close>

function ulp_of :: "rat \<Rightarrow> rat" where
  "ulp_of x = (if x \<le> 0 then 0
               else if x < 1 then ulp_of (2 * x) / 2
               else if 2 \<le> x then 2 * ulp_of (x / 2)
               else 1 / 2 ^ 52)"
  by pat_completeness auto
termination
proof -
  have half: "\<lceil>y / 2\<rceil> < \<lceil>y\<rceil>" if "1 < y" for y :: rat
  proof -
    define n where "n = \<lceil>y\<rceil>"
    have a: "2 \<le> n" unfolding n_def using that by (simp add: le_ceiling_iff)
    have b: "y \<le> of_int n" unfolding n_def by (rule le_of_int_ceiling)
    have "(2::rat) \<le> of_int n" using a by (metis of_int_le_iff of_int_numeral)
    then have "(of_int n :: rat) / 2 \<le> of_int n - 1" by (simp add: field_simps)
    then have "y / 2 \<le> of_int (n - 1)" using b by simp
    then have "\<lceil>y / 2\<rceil> \<le> n - 1" by (simp only: ceiling_le_iff)
    then show ?thesis unfolding n_def by simp
  qed
  show ?thesis
  proof (relation "measure (\<lambda>x. nat \<lceil>x\<rceil> + 2 * nat \<lceil>1 / x\<rceil>)")
    show "wf (measure (\<lambda>x::rat. nat \<lceil>x\<rceil> + 2 * nat \<lceil>1 / x\<rceil>))" by simp
  next
    fix x :: rat assume a: "\<not> x \<le> 0" "x < 1"
    define p where "p = \<lceil>x\<rceil>"
    define p' where "p' = \<lceil>2 * x\<rceil>"
    define q where "q = \<lceil>1 / x\<rceil>"
    define q' where "q' = \<lceil>1 / (2 * x)\<rceil>"
    have c1: "p = 1" unfolding p_def using a by (simp add: ceiling_eq_iff)
    have c2: "p' \<le> 2" unfolding p'_def using a by (simp add: ceiling_le_iff)
    have "1 < 1 / x" using a by (simp add: field_simps)
    from half[OF this] have c3: "q' < q" unfolding q_def q'_def by (simp add: field_simps)
    have c4: "0 < q'" unfolding q'_def using a by (simp add: less_ceiling_iff)
    have "nat p' + 2 * nat q' < nat p + 2 * nat q" using c1 c2 c3 c4 by linarith
    then show "(2 * x, x) \<in> measure (\<lambda>x. nat \<lceil>x\<rceil> + 2 * nat \<lceil>1 / x\<rceil>)"
      unfolding p_def p'_def q_def q'_def by simp
  next
    fix x :: rat assume a: "\<not> x \<le> 0" "\<not> x < 1" "2 \<le> x"
    define p where "p = \<lceil>x\<rceil>"
    define p' where "p' = \<lceil>x / 2\<rceil>"
    define q where "q = \<lceil>1 / x\<rceil>"
    define q' where "q' = \<lceil>1 / (x / 2)\<rceil>"
    have c1: "p' < p" unfolding p_def p'_def using a by (intro half) simp
    have c2: "q = 1" unfolding q_def using a by (simp add: ceiling_eq_iff field_simps)
    have c3: "q' = 1" unfolding q'_def using a by (simp add: ceiling_eq_iff field_simps)
    have c4: "0 < p'" unfolding p'_def using a by (simp add: less_ceiling_iff)
    have "nat p' + 2 * nat q' < nat p + 2 * nat q" using c1 c2 c3 c4 by linarith
    then show "(x / 2, x) \<in> measure (\<lambda>x. nat \<lceil>x\<rceil> + 2 * nat \<lceil>1 / x\<rceil>)"
      unfolding p_def p'_def q_def q'_def by simp
  qed
qed

declare ulp_of.simps [simp del]

text \<open>The nearest integer, the even one of two that are equally near.\<close>

definition round_half_even :: "rat \<Rightarrow> int" where
  "round_half_even y =
     (let n = \<lfloor>y\<rfloor>; f = y - of_int n
      in if f < 1 / 2 then n else if 1 / 2 < f then n + 1 else if even n then n else n + 1)"

definition to_double :: "rat \<Rightarrow> rat" where
  "to_double x =
     (if x = 0 then 0
      else if x < 0 then - (of_int (round_half_even (- x / ulp_of (- x))) * ulp_of (- x))
      else of_int (round_half_even (x / ulp_of x)) * ulp_of x)"

subsection \<open>White space, trimming and splitting\<close>

text \<open>
  The code units that \<open>String.prototype.trim\<close> removes and that \<open>\s\<close> matches in a
  regular expression: the WhiteSpace and LineTerminator code points of ECMAScript (tab,
  line feed, vertical tab, form feed, carriage return, space, no-break space, U+1680,
  U+2000 to U+200A, U+2028, U+2029, U+202F, U+205F, U+3000, U+FEFF).
\<close>

definition is_space :: "nat \<Rightarrow> bool" where
  "is_space c \<longleftrightarrow>
     c = 0x09 \<or> c = 0x0A \<or> c = 0x0B \<or> c = 0x0C \<or> c = 0x0D \<or> c = 0x20 \<or> c = 0xA0
     \<or> c = 0x1680 \<or> (0x2000 \<le> c \<and> c \<le> 0x200A) \<or> c = 0x2028 \<or> c = 0x2029
     \<or> c = 0x202F \<or> c = 0x205F \<or> c = 0x3000 \<or> c = 0xFEFF"

text \<open>\<open>\d\<close>: the ten ASCII digits.\<close>

definition is_digit :: "nat \<Rightarrow> bool" where
  "is_digit c \<longleftrightarrow> 0x30 \<le> c \<and> c \<le> 0x39"

text \<open>The class \<open>[.!?]\<close>.\<close>

definition is_sentence_end :: "nat \<Rightarrow> bool" where
  "is_sentence_end c \<longleftrightarrow> c = 0x2E \<or> c = 0x21 \<or> c = 0x3F"

definition js_trim :: "js_string \<Rightarrow> js_string" where
  "js_trim s = rev (dropWhile is_space (rev (dropWhile is_space s)))"

text \<open>
  \<open>s.split(/C+/)\<close> for a character class \<open>C\<close>: the search for the next separator starts
  where the last one ended, a separator is a maximal run of units of the class, and the
  text after the last separator (the whole string, when there is none) is the last
  segment. The empty string gives one empty segment.
\<close>

function split_plus :: "(nat \<Rightarrow> bool) \<Rightarrow> js_string \<Rightarrow> js_string list" where
  "split_plus sep s =
     (case dropWhile (\<lambda>c. \<not> sep c) s of
        [] \<Rightarrow> [s]
      | _ # rest \<Rightarrow> takeWhile (\<lambda>c. \<not> sep c) s # split_plus sep (dropWhile sep rest))"
  by pat_completeness auto
termination
proof (relation "measure (\<lambda>(sep, s). length s)")
  show "wf (measure (\<lambda>(sep, s). length s))" by simp
next
  fix sep :: "nat \<Rightarrow> bool" and s :: js_string and x rest
  assume "dropWhile (\<lambda>c. \<not> sep c) s = x # rest"
  then have "length (x # rest) \<le> length s"
    by (metis length_dropWhile_le)
  moreover have "length (dropWhile sep rest) \<le> length rest"
    by (rule length_dropWhile_le)
  ultimately show "((sep, dropWhile sep rest), (sep, s)) \<in> measure (\<lambda>(sep, s). length s)"
    by simp
qed

declare split_plus.simps [simp del]

subsection \<open>Regular expressions that are alternatives of literals\<close>

text \<open>
  The expressions of the source with the flag \<open>i\<close> are alternatives of ASCII literals.
  Without the flag \<open>u\<close> two code units match when their canonical forms are equal: the
  canonical form of an ASCII letter is its upper case, and the canonical form of a unit
  from 128 on is never an ASCII unit. Every pattern unit is ASCII, so comparing with
  \<open>canon\<close>, which leaves the units from 128 on as they are, decides the match.
\<close>

definition canon :: "nat \<Rightarrow> nat" where
  "canon c = (if 0x61 \<le> c \<and> c \<le> 0x7A then c - 0x20 else c)"

text \<open>The literal \<open>p\<close> matches at the start of \<open>s\<close>.\<close>

fun matches_at :: "js_string \<Rightarrow> js_string \<Rightarrow> bool" where
  "matches_at [] s = True"
| "matches_at (p # ps) [] = False"
| "matches_at (p # ps) (c # cs) = (canon p = canon c \<and> matches_at ps cs)"

text \<open>
  The alternatives are tried from left to right; the result is the length of the first
  one that matches at the start of \<open>s\<close>.
\<close>

fun first_match :: "js_string list \<Rightarrow> js_string \<Rightarrow> nat option" where
  "first_match [] s = None"
| "first_match (p # ps) s = (if matches_at p s then Some (length p) else first_match ps s)"

text \<open>\<open>/p1|p2|.../i.test(s)\<close>: some position of \<open>s\<close>, its end included, has a match.\<close>

fun regex_test :: "js_string list \<Rightarrow> js_string \<Rightarrow> bool" where
  "regex_test alts [] = (first_match alts [] \<noteq> None)"
| "regex_test alts (c # cs) = (first_match alts (c # cs) \<noteq> None \<or> regex_test alts cs)"

text \<open>
  The replacement text of \<open>String.prototype.replace\<close> is a template: \<open>$$\<close> stands for a
  dollar sign, \<open>$&\<close> for the matched text, \<open>$`\<close> for the text before the match and
  \<open>$'\<close> for the text after it. The expressions of the source have no capture groups, so
  a dollar sign before a digit or before \<open><\<close> stands for itself, as it does before anything
  else.
\<close>

fun get_substitution :: "js_string \<Rightarrow> js_string \<Rightarrow> js_string \<Rightarrow> js_string \<Rightarrow> js_string" where
  "get_substitution [] matched pre post = []"
| "get_substitution [c] matched pre post = [c]"
| "get_substitution (c # d # t) matched pre post =
     (if c = 0x24 then
        (if d = 0x24 then 0x24 # get_substitution t matched pre post
         else if d = 0x26 then matched @ get_substitution t matched pre post
         else if d = 0x60 then pre @ get_substitution t matched pre post
         else if d = 0x27 then post @ get_substitution t matched pre post
         else 0x24 # get_substitution (d # t) matched pre post)
      else c # get_substitution (d # t) matched pre post)"

text \<open>
  \<open>s.replace(/p1|p2|.../gi, template)\<close>. The scan goes through \<open>s\<close> from left to right:
  \<open>pre\<close> is the text already passed, \<open>skip\<close> the number of units of the current match
  that are still to be passed. At a match the expanded template is emitted and the search
  goes on behind the match; after an empty match it goes on one unit further.
\<close>

fun replace_from :: "js_string list \<Rightarrow> js_string \<Rightarrow> nat \<Rightarrow> js_string \<Rightarrow> js_string \<Rightarrow> js_string" where
  "replace_from alts template skip pre [] =
     (case (skip, first_match alts []) of
        (0, Some n) \<Rightarrow> get_substitution template [] pre []
      | _ \<Rightarrow> [])"
| "replace_from alts template (Suc skip) pre (c # cs) =
     replace_from alts template skip (pre @ [c]) cs"
| "replace_from alts template 0 pre (c # cs) =
     (case first_match alts (c # cs) of
        None \<Rightarrow> c # replace_from alts template 0 (pre @ [c]) cs
      | Some 0 \<Rightarrow> get_substitution template [] pre (c # cs)
                 @ c # replace_from alts template 0 (pre @ [c]) cs
      | Some (Suc n) \<Rightarrow> get_substitution template (take (Suc n) (c # cs)) pre (drop (Suc n) (c # cs))
                 @ replace_from alts template n (pre @ [c]) cs)"

definition js_replace_all :: "js_string list \<Rightarrow> js_string \<Rightarrow> js_string \<Rightarrow> js_string" where
  "js_replace_all alts template s = replace_from alts template 0 [] s"

subsection \<open>Property lookup on an object literal\<close>

text \<open>
  \<open>obj[key]\<close> on an object written as a literal: an own property gives its value; a key
  that is not an own property is looked up in \<open>Object.prototype\<close>, whose properties are
  functions (\<open>__proto__\<close> gives \<open>Object.prototype\<close> itself): values that are truthy, not
  iterable, and \<open>NaN\<close> as numbers; any other key gives \<open>undefined\<close>.
\<close>

datatype 'a js_prop = Own 'a | Inherited | Absent

definition Object_prototype_names :: "js_string list" where
  "Object_prototype_names =
     [js ''constructor'', js ''__defineGetter__'', js ''__defineSetter__'',
      js ''hasOwnProperty'', js ''__lookupGetter__'', js ''__lookupSetter__'',
      js ''isPrototypeOf'', js ''propertyIsEnumerable'', js ''toString'', js ''valueOf'',
      js ''__proto__'', js ''toLocaleString'']"

definition js_get :: "(js_string \<times> 'a) list \<Rightarrow> js_string \<Rightarrow> 'a js_prop" where
  "js_get obj key =
     (case map_of obj key of
        Some v \<Rightarrow> Own v
      | None \<Rightarrow> if key \<in> set Object_prototype_names then Inherited else Absent)"

datatype js_error = TypeError

text \<open>A number that may be \<open>NaN\<close>.\<close>

datatype js_number = NaN | Num int

text \<open>\<open>xs[i]\<close> for an integer \<open>i\<close>: \<open>undefined\<close> (\<open>None\<close>) outside the array.\<close>

definition js_index :: "'a list \<Rightarrow> int \<Rightarrow> 'a option" where
  "js_index xs i = (if 0 \<le> i \<and> i < int (length xs) then Some (xs ! nat i) else None)"

text \<open>\<open>xs.slice(0, n)\<close> for an integer \<open>n\<close>: a negative \<open>n\<close> counts from the end.\<close>

definition js_slice0 :: "'a list \<Rightarrow> int \<Rightarrow> 'a list" where
  "js_slice0 xs n =
     (let len = int (length xs);
          final = (if n < 0 then max (len + n) 0 else min n len)
      in take (nat final) xs)"

subsection \<open>Sorting with a comparator that ignores its arguments\<close>

text \<open>
  \<open>Array.prototype.sort\<close> belongs to the engine. With the comparator
  \<open>() => Math.random() - 0.5\<close> the engine learns nothing from its arguments, so for an array
  of a given length a run of the sort is a finite tree: either the sort is finished, and the
  element at position \<open>i\<close> of the result is the element that stood at position \<open>p ! i\<close>,
  or the engine calls the comparator and goes on according to the sign of the number it
  returns (negative, zero, positive). The tree is a parameter of the model.
\<close>

datatype sort_run = Result "nat list" | Compare sort_run sort_run sort_run

text \<open>
  \<open>rnd\<close> is the sequence of values that \<open>Math.random()\<close> returns, \<open>i\<close> the number of
  values already used.
\<close>

fun run_sort :: "sort_run \<Rightarrow> (nat \<Rightarrow> rat) \<Rightarrow> nat \<Rightarrow> nat list" where
  "run_sort (Result p) rnd i = p"
| "run_sort (Compare neg zero pos) rnd i =
     (if rnd i - 1 / 2 < 0 then run_sort neg rnd (Suc i)
      else if rnd i - 1 / 2 = 0 then run_sort zero rnd (Suc i)
      else run_sort pos rnd (Suc i))"

text \<open>The sort rearranges: every result of a run for \<open>n\<close> elements orders the positions below \<open>n\<close>.\<close>

fun rearranges :: "nat \<Rightarrow> sort_run \<Rightarrow> bool" where
  "rearranges n (Result p) = (sort p = [0..<n])"
| "rearranges n (Compare neg zero pos) = (rearranges n neg \<and> rearranges n zero \<and> rearranges n pos)"

definition js_sort_random :: "sort_run \<Rightarrow> (nat \<Rightarrow> rat) \<Rightarrow> 'a list \<Rightarrow> 'a list" where
  "js_sort_random t rnd xs = map (\<lambda>i. xs ! i) (run_sort t rnd 0)"

text \<open>The largest number of comparator calls of a run.\<close>

fun calls :: "sort_run \<Rightarrow> nat" where
  "calls (Result p) = 0"
| "calls (Compare neg zero pos) = Suc (max (calls neg) (max (calls zero) (calls pos)))"

section \<open>config/fallback.js\<close>

subsection \<open>The question bank\<close>

definition QUESTIONS_behavioral :: "js_string list" where
  "QUESTIONS_behavioral =
     [js ''Tell me about yourself and what makes you a good fit for this role.'',
      js ''Describe a time when you had to deal with a difficult coworker or team member. How did you handle it?'',
      js ''Give me an example of a time you showed leadership, even if you weren't in a management role.'',
      js ''Tell me about a project you're particularly proud of. What was your contribution?'',
      js ''Describe a situation where you had to meet a tight deadline. How did you manage your time?'',
      js ''Tell me about a time you received constructive criticism. How did you respond?'',
      js ''Give an example of when you had to adapt to a significant change at work.'',
      js ''Describe a time when you had to persuade someone to see things your way.'',
      js ''Tell me about a mistake you made at work and how you handled it.'',
      js ''How do you handle stress and pressure in the workplace?'',
      js ''Describe a situation where you went above and beyond your job responsibilities.'',
      js ''Tell me about a time you had to work with a team to achieve a common goal.'',
      js ''Give an example of how you've handled a conflict at work.'',
      js ''Describe a time when you had to make a difficult decision with limited information.'',
      js ''Tell me about a time you failed. What did you learn from the experience?'']"

definition QUESTIONS_technical :: "js_string list" where
  "QUESTIONS_technical =
     [js ''Explain the concept of RESTful APIs and why they are important in modern software development.'',
      js ''What is the difference between SQL and NoSQL databases? When would you use each?'',
      js ''Describe how you would design a scalable web application architecture.'',
      js ''Explain the concept of Object-Oriented Programming and its main principles.'',
      js ''What are design patterns? Can you describe a few that you've used?'',
      js ''How would you optimize the performance of a slow database query?'',
      js ''Explain the concept of microservices architecture and its pros and cons.'',
      js ''What is version control and why is it important? Describe your Git workflow.'',
      js ''How do you approach debugging a complex issue in production?'',
      js ''Explain the difference between authentication and authorization.'',
      js ''What is CI/CD and why is it important in software development?'',
      js ''Describe how caching works and when you would implement it.'',
      js ''What are the SOLID principles in software design?'',
      js ''Explain how you would handle security vulnerabilities in a web application.'',
      js ''What is the difference between synchronous and asynchronous programming?'']"

definition QUESTIONS_situational :: "js_string list" where
  "QUESTIONS_situational =
     [js ''If you were assigned to a project with unclear requirements, how would you proceed?'',
      js ''How would you handle a situation where your manager disagrees with your approach?'',
      js ''If you discovered a critical bug right before a product launch, what would you do?'',
      js ''How would you prioritize competing tasks when everything seems urgent?'',
      js ''If a client requested a feature that would take significant time to build, how would you handle it?'',
      js ''How would you onboard yourself in a new team with minimal documentation?'',
      js ''If you noticed a colleague was struggling with their workload, what would you do?'',
      js ''How would you handle a situation where the technology stack you're comfortable with isn't the best choice for a project?'',
      js ''If stakeholders changed requirements mid-sprint, how would you respond?'',
      js ''How would you approach giving negative feedback to a team member?'',
      js ''If you were given a project with an impossible deadline, what would you do?'',
      js ''How would you handle a situation where two team members have a conflict?'',
      js ''If you discovered that a decision you advocated for was wrong, what would you do?'',
      js ''How would you handle a situation where you need to learn a new technology quickly?'',
      js ''If you were asked to cut corners on quality to meet a deadline, how would you respond?'']"

definition QUESTIONS_mixed :: "js_string list" where
  "QUESTIONS_mixed =
     [js ''Tell me about yourself and your experience in this field.'',
      js ''What's a technical challenge you recently solved? Walk me through your approach.'',
      js ''How do you stay current with industry trends and new technologies?'',
      js ''Describe your ideal work environment and team culture.'',
      js ''If you had to explain a complex technical concept to a non-technical stakeholder, how would you do it?'',
      js ''Tell me about a time you had to balance quality with speed.'',
      js ''What's your approach to code reviews and giving/receiving feedback?'',
      js ''How would you handle a production outage at 2 AM?'',
      js ''Describe a project where you had to collaborate across different teams.'',
      js ''What do you consider your greatest professional strength and weakness?'',
      js ''How do you approach problem-solving when you encounter something completely new?'',
      js ''Tell me about a time you mentored someone or helped a colleague grow.'',
      js ''What's the most impactful project you've worked on and why?'',
      js ''How do you handle disagreements about technical decisions?'',
      js ''Where do you see yourself professionally in the next 3-5 years?'']"

definition QUESTIONS :: "(js_string \<times> js_string list) list" where
  "QUESTIONS =
     [(js ''behavioral'', QUESTIONS_behavioral),
      (js ''technical'', QUESTIONS_technical),
      (js ''situational'', QUESTIONS_situational),
      (js ''mixed'', QUESTIONS_mixed)]"

subsection \<open>generateLocalQuestions\<close>

text \<open>The alternatives of \<open>/this role|this field|your experience/gi\<close>.\<close>

definition role_patterns :: "js_string list" where
  "role_patterns = [js ''this role'', js ''this field'', js ''your experience'']"

text \<open>
  \<open>[...pool]\<close> throws a TypeError when \<open>pool\<close> is not iterable, which is the case for a
  value inherited from \<open>Object.prototype\<close>; such a value is truthy, so \<open>||\<close> keeps it. An
  own property of \<open>QUESTIONS\<close> is an array, which is truthy as well. \<open>t\<close> is the run of the
  engine's sort for the length of the pool. The fields \<open>difficulty\<close> and \<open>topic\<close> of the
  request are not read by the function and are left out.
\<close>

definition generateLocalQuestions ::
  "sort_run \<Rightarrow> (nat \<Rightarrow> rat) \<Rightarrow> js_string \<Rightarrow> js_string \<Rightarrow> int \<Rightarrow> js_error + js_string list" where
  "generateLocalQuestions t rnd jobRole interviewType numQuestions =
     (case (case js_get QUESTIONS interviewType of
              Own pool \<Rightarrow> Some pool
            | Inherited \<Rightarrow> None
            | Absent \<Rightarrow> Some QUESTIONS_mixed) of
        None \<Rightarrow> Inl TypeError
      | Some pool \<Rightarrow>
          (let shuffled = js_sort_random t rnd pool;
               selected = js_slice0 shuffled numQuestions
           in Inr (case selected of
                     [] \<Rightarrow> []
                   | first # others \<Rightarrow>
                       js_replace_all role_patterns (js ''the '' @ jobRole @ js '' role'') first
                       # others)))"

subsection \<open>evaluateAnswerLocally\<close>

definition specifics_patterns :: "js_string list" where
  "specifics_patterns =
     [js ''for example'', js ''specifically'', js ''such as'', js ''instance'', js ''result'',
      js ''outcome'', js ''achieved'', js ''improved'', js ''increased'', js ''reduced'',
      js ''led to'']"

definition structure_patterns :: "js_string list" where
  "structure_patterns =
     [js ''first'', js ''second'', js ''additionally'', js ''moreover'', js ''however'',
      js ''in conclusion'', js ''finally'']"

definition caps :: "(js_string \<times> int) list" where
  "caps = [(js ''Easy'', 95), (js ''Medium'', 90), (js ''Hard'', 85), (js ''Expert'', 80)]"

record AnswerEvaluation =
  score :: js_number
  positive :: "js_string option"
  improve :: "js_string option"
  brief :: "js_string option"

definition positiveOptions :: "js_string list" where
  "positiveOptions =
     [js ''You provided a clear and direct response to the question.'',
      js ''Your answer shows good understanding of the topic.'',
      js ''You communicated your thoughts effectively.'',
      js ''Your response was well-structured and easy to follow.'',
      js ''You demonstrated relevant knowledge in your answer.'']"

definition improveOptions :: "js_string list" where
  "improveOptions =
     [js ''Try adding more specific examples with measurable outcomes.'',
      js ''Consider using the STAR method (Situation, Task, Action, Result) for behavioral answers.'',
      js ''Adding quantifiable metrics would strengthen your response.'',
      js ''Try to connect your answer more directly to the role requirements.'',
      js ''Consider providing more depth with real-world examples from your experience.'']"

text \<open>\<open>score >= 70\<close> is false for \<open>NaN\<close>.\<close>

fun at_least_70 :: "js_number \<Rightarrow> bool" where
  "at_least_70 NaN = False"
| "at_least_70 (Num x) = (x \<ge> 70)"

definition briefOptions :: "js_number \<Rightarrow> js_string list" where
  "briefOptions score' =
     [(if at_least_70 score' then js ''Good'' else js ''Decent'') @ js '' answer. ''
        @ (if at_least_70 score' then js ''Keep this up!'' else js ''A bit more depth would help.''),
      (if at_least_70 score' then js ''Strong'' else js ''Fair'') @ js '' response. ''
        @ (if at_least_70 score' then js ''Well articulated.'' else js ''Try to be more specific.''),
      (if at_least_70 score' then js ''Impressive'' else js ''Reasonable'') @ js '' answer. ''
        @ (if at_least_70 score' then js ''Shows solid understanding.'' else js ''Could use more examples.'')]"

text \<open>
  The score before the cap: the base and the bonuses of the source, in its order.
\<close>

definition raw_score :: "js_string \<Rightarrow> int" where
  "raw_score answerText =
     (let wordCount = length (split_plus is_space (js_trim answerText));
          sentenceCount = length (filter (\<lambda>s. js_trim s \<noteq> []) (split_plus is_sentence_end answerText));
          score0 = 50;
          score1 = (if wordCount \<ge> 20 then score0 + 5 else score0);
          score2 = (if wordCount \<ge> 50 then score1 + 10 else score1);
          score3 = (if wordCount \<ge> 100 then score2 + 5 else score2);
          score4 = (if wordCount \<ge> 150 then score3 + 5 else score3);
          score5 = (if sentenceCount \<ge> 2 then score4 + 5 else score4);
          score6 = (if sentenceCount \<ge> 4 then score5 + 5 else score5);
          hasNumbers = list_ex is_digit answerText;
          hasSpecifics = regex_test specifics_patterns answerText;
          hasStructure = regex_test structure_patterns answerText;
          score7 = (if hasNumbers then score6 + 5 else score6);
          score8 = (if hasSpecifics then score7 + 5 else score7);
          score9 = (if hasStructure then score8 + 5 else score8)
      in score9)"

text \<open>
  \<open>Math.min(score, caps[difficulty] || 90)\<close> and \<open>Math.max(score, 30)\<close>: an own property
  of \<open>caps\<close> is a number, kept by \<open>||\<close> unless it is 0; a missing property gives 90; an
  inherited one is kept by \<open>||\<close> and is \<open>NaN\<close> as a number, and so are the minimum and the
  maximum then.
\<close>

definition cap_and_floor :: "int \<Rightarrow> js_string \<Rightarrow> js_number" where
  "cap_and_floor score' difficulty' =
     (case js_get caps difficulty' of
        Own c \<Rightarrow> Num (max (min score' (if c = 0 then 90 else c)) 30)
      | Absent \<Rightarrow> Num (max (min score' 90) 30)
      | Inherited \<Rightarrow> NaN)"

text \<open>
  The three values of \<open>Math.random()\<close> that choose the phrases are the last argument;
  \<open>Math.floor(Math.random() * options.length)\<close> floors the product of two doubles.
\<close>

definition evaluateAnswerLocally ::
  "js_string \<Rightarrow> js_string \<Rightarrow> js_string \<Rightarrow> rat \<times> rat \<times> rat \<Rightarrow> AnswerEvaluation" where
  "evaluateAnswerLocally questionText answerText difficulty' us =
     (case us of (u1, u2, u3) \<Rightarrow>
        (let score' = cap_and_floor (raw_score answerText) difficulty'
         in \<lparr> score = score',
              positive = js_index positiveOptions \<lfloor>to_double (u1 * of_nat (length positiveOptions))\<rfloor>,
              improve = js_index improveOptions \<lfloor>to_double (u2 * of_nat (length improveOptions))\<rfloor>,
              brief = js_index (briefOptions score') \<lfloor>to_double (u3 * of_nat (length (briefOptions score')))\<rfloor> \<rparr>))"

subsection \<open>generateReportLocally\<close>

text \<open>
  The rows the report route reads: \<open>interview\<close> is a row of the table \<open>interviews\<close>,
  each element of \<open>qas\<close> a question joined with its answer. A column that is \<open>NULL\<close>
  (the left join found no answer, or the answer has no score) is \<open>None\<close>.
\<close>

record interview_row =
  job_role :: js_string
  interview_type :: js_string
  difficulty :: js_string

record qa_row =
  question_text :: js_string
  answer_text :: "js_string option"
  qa_score :: "int option"

record report =
  overallScore :: int
  grade :: js_string
  communication :: int
  relevance :: int
  confidence :: int
  structure' :: int
  depth :: int
  strengths :: "js_string list"
  improvements :: "js_string list"
  recommendation :: js_string

text \<open>
  \<open>qa => qa.score\<close> as a filter predicate: \<open>null\<close> and \<open>0\<close> are falsy, every other
  integer is truthy.
\<close>

fun truthy_score :: "int option \<Rightarrow> bool" where
  "truthy_score None = False"
| "truthy_score (Some n) = (n \<noteq> 0)"

text \<open>
  \<open>vary(base, range)\<close>, with the value \<open>u\<close> that \<open>Math.random()\<close> returns in the call
  (a double with \<open>0 \<le> u < 1\<close>). \<open>jitter\<close> is the offset
  \<open>Math.floor(Math.random() * range * 2 - range)\<close>: the two products and the
  difference are evaluated from left to right and each is rounded to a double. The sum
  of the base and the offset, two integers of small magnitude, is exact.
\<close>

definition jitter :: "int \<Rightarrow> rat \<Rightarrow> int" where
  "jitter range' u =
     \<lfloor>to_double (to_double (to_double (u * of_int range') * 2) - of_int range')\<rfloor>"

definition vary :: "int \<Rightarrow> int \<Rightarrow> rat \<Rightarrow> int" where
  "vary base range' u = min 100 (max 0 (base + jitter range' u))"

text \<open>
  The five sub-skill lines call \<open>Math.random()\<close> once each, in the order of the object
  literal; \<open>draws\<close> holds the five values.
\<close>

record draws =
  u_communication :: rat
  u_relevance :: rat
  u_confidence :: rat
  u_structure :: rat
  u_depth :: rat

text \<open>
  The grade expression of \<open>generateReportLocally\<close>, the chain of conditionals that is
  the value of the property \<open>grade\<close> in the object literal, as a function of \<open>avgScore\<close>.
\<close>

definition generateReportLocally_grade :: "int \<Rightarrow> js_string" where
  "generateReportLocally_grade avgScore =
     (if avgScore \<ge> 85 then js ''Excellent''
      else if avgScore \<ge> 70 then js ''Good''
      else if avgScore \<ge> 55 then js ''Average''
      else if avgScore \<ge> 40 then js ''Needs Improvement''
      else js ''Poor'')"

definition generateReportLocally :: "interview_row \<Rightarrow> qa_row list \<Rightarrow> draws \<Rightarrow> report" where
  "generateReportLocally interview qas us =
     (let scores = map (\<lambda>qa. the (qa_score qa)) (filter (\<lambda>qa. truthy_score (qa_score qa)) qas);
          avgScore = (if length scores \<noteq> 0
                      then Math_round (of_int (foldl (\<lambda>a b. a + b) 0 scores) / of_nat (length scores))
                      else 60)
      in \<lparr> overallScore = avgScore,
           grade = generateReportLocally_grade avgScore,
           communication = vary avgScore 10 (u_communication us),
           relevance = vary avgScore 10 (u_relevance us),
           confidence = vary avgScore 8 (u_confidence us),
           structure' = vary avgScore 10 (u_structure us),
           depth = vary avgScore 12 (u_depth us),
           strengths = [js ''You completed the interview and attempted all questions.'',
                        js ''Your responses showed clarity of thought.'',
                        js ''You demonstrated relevant domain knowledge.''],
           improvements = [js ''Practice structuring answers using the STAR method.'',
                           js ''Include more specific, quantified examples from your experience.'',
                           js ''Research the '' @ job_role interview @ js '' role more deeply before interviews.''],
           recommendation =
             js ''Keep practicing with mock interviews regularly. Focus on building depth in your ''
             @ interview_type interview
             @ js '' responses. Use structured frameworks like STAR or SOAR to organize your thoughts. With consistent practice, you can improve your score significantly.'' \<rparr>)"

section \<open>routes/interview.js and routes/report.js: the grade helper\<close>

text \<open>\<open>scoreToGrade\<close> of routes/interview.js.\<close>

definition scoreToGrade_interview :: "int \<Rightarrow> js_string" where
  "scoreToGrade_interview score' =
     (if score' \<ge> 85 then js ''Excellent''
      else if score' \<ge> 70 then js ''Good''
      else if score' \<ge> 55 then js ''Average''
      else if score' \<ge> 40 then js ''Needs Improvement''
      else js ''Poor'')"

text \<open>\<open>scoreToGrade\<close> of routes/report.js, a second copy of the same text.\<close>

definition scoreToGrade_report :: "int \<Rightarrow> js_string" where
  "scoreToGrade_report score' =
     (if score' \<ge> 85 then js ''Excellent''
      else if score' \<ge> 70 then js ''Good''
      else if score' \<ge> 55 then js ''Average''
      else if score' \<ge> 40 then js ''Needs Improvement''
      else js ''Poor'')"

section \<open>routes/interview.js: POST /:id/answer\<close>

text \<open>
  A field of the request body, as the JSON parser delivers it; \<open>Undefined\<close> is a missing
  field, \<open>Object\<close> an object or an array.
\<close>

datatype js_value = Undefined | Null | Boolean bool | Number int | String js_string | Object

fun truthy :: "js_value \<Rightarrow> bool" where
  "truthy Undefined = False"
| "truthy Null = False"
| "truthy (Boolean b) = b"
| "truthy (Number n) = (n \<noteq> 0)"
| "truthy (String s) = (s \<noteq> [])"
| "truthy Object = True"

text \<open>
  What the handler does to the world, in order, and what it answers. The database and the
  Gemini API are outside the repository: \<open>answer_env\<close> holds what they return to this
  request (\<open>None\<close>: no such row, or the call throws). The authentication middleware
  runs before the handler and is not part of it.
\<close>

datatype effect = SelectInterview | SelectQuestion | CallGemini | EvaluateLocally | InsertAnswer

datatype reply =
    Reply nat js_string
  | ReplyFeedback nat AnswerEvaluation
  | Rejection js_error

record answer_env =
  found_interview :: "interview_row option"
  found_question :: "js_string option"
  gemini_feedback :: "AnswerEvaluation option"
  phrase_draws :: "rat \<times> rat \<times> rat"
  inserted_id :: "nat option"

text \<open>
  \<open>!questionId || !answerText || answerText.trim().length < 5\<close> is evaluated from left to
  right; \<open>answerText.trim()\<close> is reached only for a truthy \<open>answerText\<close> and throws a
  TypeError unless it is a string (the promise of the handler is rejected, nothing is sent).
\<close>

definition post_answer :: "js_value \<Rightarrow> js_value \<Rightarrow> answer_env \<Rightarrow> reply \<times> effect list" where
  "post_answer questionId answerText env =
     (if \<not> truthy questionId \<or> \<not> truthy answerText
      then (Reply 400 (js ''questionId and answerText (min 5 chars) are required.''), [])
      else (case answerText of
              String text \<Rightarrow>
                (if length (js_trim text) < 5
                 then (Reply 400 (js ''questionId and answerText (min 5 chars) are required.''), [])
                 else (case found_interview env of
                         None \<Rightarrow> (Reply 404 (js ''Interview not found.''), [SelectInterview])
                       | Some interview \<Rightarrow>
                           (case found_question env of
                              None \<Rightarrow> (Reply 404 (js ''Question not found.''),
                                        [SelectInterview, SelectQuestion])
                            | Some question \<Rightarrow>
                                (let (feedback, evaluation) =
                                       (case gemini_feedback env of
                                          Some f \<Rightarrow> (f, [CallGemini])
                                        | None \<Rightarrow>
                                            (evaluateAnswerLocally question text (difficulty interview)
                                               (phrase_draws env),
                                             [CallGemini, EvaluateLocally]))
                                 in (case inserted_id env of
                                       None \<Rightarrow> (Reply 500 (js ''Failed to evaluate answer.''),
                                                 [SelectInterview, SelectQuestion] @ evaluation @ [InsertAnswer])
                                     | Some answerId \<Rightarrow> (ReplyFeedback answerId feedback,
                                                 [SelectInterview, SelectQuestion] @ evaluation @ [InsertAnswer]))))))
            | _ \<Rightarrow> (Rejection TypeError, [])))"

section \<open>voicehire-frontend/app.js: proctoring\<close>

text \<open>
  The three globals of the violation policy, and the number of cooldown timers that
  \<open>setTimeout\<close> has registered and that have not fired yet. The other globals of the
  proctoring code (the previous video frame, the sampling interval) do not enter the policy.
\<close>

record proctor =
  proctorWarnings :: nat
  proctorActive :: bool
  proctorCooldown :: bool
  cooldownTimers :: nat

definition MAX_PROCTOR_WARNINGS :: nat where
  "MAX_PROCTOR_WARNINGS = 3"

text \<open>What the policy shows: the warning modal with reason and count, or the terminated modal.\<close>

datatype shown = ShowProctorWarning js_string nat | ShowInterviewTerminated js_string

definition startProctoring :: "proctor \<Rightarrow> proctor" where
  "startProctoring s =
     (if proctorActive s then s
      else s\<lparr>proctorActive := True, proctorWarnings := 0, proctorCooldown := False\<rparr>)"

definition stopProctoring :: "proctor \<Rightarrow> proctor" where
  "stopProctoring s = (if \<not> proctorActive s then s else s\<lparr>proctorActive := False\<rparr>)"

text \<open>\<open>showInterviewTerminated\<close> calls \<open>stopProctoring\<close> first.\<close>

definition handleProctorViolation :: "js_string \<Rightarrow> proctor \<Rightarrow> proctor \<times> shown list" where
  "handleProctorViolation reason s =
     (if \<not> proctorActive s \<or> proctorCooldown s then (s, [])
      else (let s1 = s\<lparr>proctorWarnings := proctorWarnings s + 1, proctorCooldown := True,
                       cooldownTimers := cooldownTimers s + 1\<rparr>
            in if proctorWarnings s1 \<ge> MAX_PROCTOR_WARNINGS
               then (stopProctoring s1, [ShowInterviewTerminated reason])
               else (s1, [ShowProctorWarning reason (proctorWarnings s1)])))"

text \<open>The callback of the cooldown timer, eight seconds after the violation that set it.\<close>

definition cooldownTimerFires :: "proctor \<Rightarrow> proctor" where
  "cooldownTimerFires s =
     (if cooldownTimers s = 0 then s
      else s\<lparr>proctorCooldown := False, cooldownTimers := cooldownTimers s - 1\<rparr>)"

text \<open>
  The handlers run to completion one after the other. A session is a sequence of events:
  the interview screen starts or stops proctoring, a signal reports a violation, a cooldown
  timer fires.
\<close>

datatype event = Start | Stop | Violation js_string | TimerFires

fun step :: "proctor \<Rightarrow> event \<Rightarrow> proctor \<times> shown list" where
  "step s Start = (startProctoring s, [])"
| "step s Stop = (stopProctoring s, [])"
| "step s (Violation reason) = handleProctorViolation reason s"
| "step s TimerFires = (cooldownTimerFires s, [])"

fun run :: "proctor \<Rightarrow> event list \<Rightarrow> proctor \<times> shown list" where
  "run s [] = (s, [])"
| "run s (e # es) =
     (let (s1, out1) = step s e; (s2, out2) = run s1 es in (s2, out1 @ out2))"

definition page_loaded :: proctor where
  "page_loaded = \<lparr>proctorWarnings = 0, proctorActive = False, proctorCooldown = False,
                   cooldownTimers = 0\<rparr>"

section \<open>The specification's terms\<close>

subsection \<open>The specification's terms for the report\<close>

text \<open>
  The scores that enter the average: the recorded scores of the answers, in order, without
  the rows that have no score and without the scores that are 0.
\<close>

definition included_scores :: "qa_row list \<Rightarrow> int list" where
  "included_scores qas =
     concat (map (\<lambda>qa. case qa_score qa of None \<Rightarrow> [] | Some n \<Rightarrow> (if n = 0 then [] else [n])) qas)"

text \<open>The mean of a list of scores that is not empty, as an exact fraction.\<close>

definition mean :: "int list \<Rightarrow> rat" where
  "mean xs = of_int (sum_list xs) / of_nat (length xs)"

text \<open>\<open>clamp(x, lo, hi)\<close>.\<close>

definition clamp :: "int \<Rightarrow> int \<Rightarrow> int \<Rightarrow> int" where
  "clamp x lo hi = (if x < lo then lo else if hi < x then hi else x)"

text \<open>
  A value of \<open>Math.random()\<close>: a double (rounding leaves it as it is) that is at least 0
  and below 1. \<open>unit_draws\<close>: every one of the five draws is such a value.
\<close>

definition unit_draw :: "rat \<Rightarrow> bool" where
  "unit_draw u \<longleftrightarrow> 0 \<le> u \<and> u < 1 \<and> to_double u = u"

definition unit_draws :: "draws \<Rightarrow> bool" where
  "unit_draws us \<longleftrightarrow>
     unit_draw (u_communication us) \<and> unit_draw (u_relevance us) \<and> unit_draw (u_confidence us)
     \<and> unit_draw (u_structure us) \<and> unit_draw (u_depth us)"

text \<open>
  Rows of an interview whose overall score is a given integer \<open>s\<close>: one answer with the
  score \<open>s\<close>, or, as a score 0 does not enter the average, two answers with the scores 1
  and -1 when \<open>s\<close> is 0.
\<close>

definition rows_scoring :: "int \<Rightarrow> qa_row list" where
  "rows_scoring s =
     (if s = 0
      then [\<lparr>question_text = js ''Q1'', answer_text = Some (js ''A1''), qa_score = Some 1\<rparr>,
            \<lparr>question_text = js ''Q2'', answer_text = Some (js ''A2''), qa_score = Some (- 1)\<rparr>]
      else [\<lparr>question_text = js ''Q1'', answer_text = Some (js ''A1''), qa_score = Some s\<rparr>])"

subsection \<open>The specification's terms for the question selector\<close>

text \<open>
  The pool of a request: the one of its interview type, the mixed pool for any other type.
\<close>

definition selected_pool :: "js_string \<Rightarrow> js_string list" where
  "selected_pool interviewType =
     (if interviewType = js ''behavioral'' then QUESTIONS_behavioral
      else if interviewType = js ''technical'' then QUESTIONS_technical
      else if interviewType = js ''situational'' then QUESTIONS_situational
      else QUESTIONS_mixed)"

text \<open>
  Replacing every occurrence of one of the literals, upper and lower case taken as equal,
  by the text \<open>new\<close> as it is: the occurrences are found from left to right, the search
  going on behind each occurrence.
\<close>

fun replace_occurrences :: "js_string list \<Rightarrow> js_string \<Rightarrow> nat \<Rightarrow> js_string \<Rightarrow> js_string" where
  "replace_occurrences alts new skip [] = []"
| "replace_occurrences alts new (Suc skip) (c # cs) = replace_occurrences alts new skip cs"
| "replace_occurrences alts new 0 (c # cs) =
     (case first_match alts (c # cs) of
        None \<Rightarrow> c # replace_occurrences alts new 0 cs
      | Some 0 \<Rightarrow> c # replace_occurrences alts new 0 cs
      | Some (Suc n) \<Rightarrow> new @ replace_occurrences alts new n cs)"

subsection \<open>The specification's terms for the answer evaluator\<close>

text \<open>
  The segments of a string between the units of a class, each separator unit ending one
  segment (two separators in a row enclose an empty segment).
\<close>

fun split_each :: "(nat \<Rightarrow> bool) \<Rightarrow> js_string \<Rightarrow> js_string list" where
  "split_each sep [] = [[]]"
| "split_each sep (c # cs) =
     (if sep c then [] # split_each sep cs
      else (case split_each sep cs of [] \<Rightarrow> [[c]] | seg # segs \<Rightarrow> (c # seg) # segs))"

text \<open>A word is a maximal run of units that are not white space.\<close>

definition word_count :: "js_string \<Rightarrow> nat" where
  "word_count s = length (filter (\<lambda>w. w \<noteq> []) (split_each is_space s))"

text \<open>
  A sentence is a segment between the units \<open>.\<close>, \<open>!\<close> and \<open>?\<close> that is not empty after
  trimming.
\<close>

definition sentence_count :: "js_string \<Rightarrow> nat" where
  "sentence_count s = length (filter (\<lambda>seg. js_trim seg \<noteq> []) (split_each is_sentence_end s))"

text \<open>
  A marker is present when one of the listed words or phrases is a substring of the answer,
  upper and lower case of the ASCII letters taken as equal.
\<close>

definition has_marker :: "js_string list \<Rightarrow> js_string \<Rightarrow> bool" where
  "has_marker markers s = list_ex (\<lambda>m. sublist (map canon m) (map canon s)) markers"

text \<open>
  The reference definition of the score: the base, the stacking bonuses for words and
  sentences, and one bonus each for a digit, a specificity marker and a structure marker.
\<close>

definition reference_total :: "js_string \<Rightarrow> int" where
  "reference_total answerText =
     50
     + (if 20 \<le> word_count answerText then 5 else 0)
     + (if 50 \<le> word_count answerText then 10 else 0)
     + (if 100 \<le> word_count answerText then 5 else 0)
     + (if 150 \<le> word_count answerText then 5 else 0)
     + (if 2 \<le> sentence_count answerText then 5 else 0)
     + (if 4 \<le> sentence_count answerText then 5 else 0)
     + (if list_ex is_digit answerText then 5 else 0)
     + (if has_marker specifics_patterns answerText then 5 else 0)
     + (if has_marker structure_patterns answerText then 5 else 0)"

text \<open>The ceiling of a difficulty: 90 for a difficulty that is not one of the four.\<close>

definition difficulty_cap :: "js_string \<Rightarrow> int" where
  "difficulty_cap d =
     (if d = js ''Easy'' then 95 else if d = js ''Medium'' then 90
      else if d = js ''Hard'' then 85 else if d = js ''Expert'' then 80 else 90)"

text \<open>The total is capped at the ceiling, then floored at 30.\<close>

definition reference_score :: "js_string \<Rightarrow> js_string \<Rightarrow> int" where
  "reference_score answerText d = max 30 (min (difficulty_cap d) (reference_total answerText))"

subsection \<open>The specification's terms for the shuffle\<close>

text \<open>
  The probability that the engine's sort ends with the order \<open>p\<close>. \<open>Math.random()\<close> is
  taken to return each of the \<open>2 ^ b\<close> numbers \<open>k / 2 ^ b\<close> below 1 with the same
  probability, independently from call to call (\<open>b\<close>, the number of random bits of a
  value, is a parameter; for \<open>b \<ge> 1\<close> the comparator is then negative with probability
  \<open>1 / 2\<close> and zero with probability \<open>1 / 2 ^ b\<close>). A run makes at most \<open>calls t\<close> calls, so the probability
  is the share of the sequences of \<open>calls t\<close> values on which the run ends with \<open>p\<close>.
\<close>

definition stream_of :: "rat list \<Rightarrow> nat \<Rightarrow> rat" where
  "stream_of ds i = (if i < length ds then ds ! i else 0)"

definition random_values :: "nat \<Rightarrow> rat list" where
  "random_values b = map (\<lambda>k. of_nat k / 2 ^ b) [0..<2 ^ b]"

definition shuffle_probability :: "nat \<Rightarrow> sort_run \<Rightarrow> nat list \<Rightarrow> rat" where
  "shuffle_probability b t p =
     of_nat (length (filter (\<lambda>ds. run_sort t (stream_of ds) 0 = p)
                       (List.n_lists (calls t) (random_values b))))
     / of_nat (length (List.n_lists (calls t) (random_values b)))"

text \<open>
  A uniformly random permutation of \<open>n\<close> elements: each of the \<open>n!\<close> orders has
  probability \<open>1 / n!\<close>.
\<close>

definition uniform_shuffle :: "nat \<Rightarrow> sort_run \<Rightarrow> nat \<Rightarrow> bool" where
  "uniform_shuffle b t n \<longleftrightarrow>
     (\<forall>p. mset p = mset [0..<n] \<longrightarrow> shuffle_probability b t p = 1 / of_nat (fact n))"

subsection \<open>The specification's terms for the proctoring policy\<close>

text \<open>
  At most three violations are counted per activation, and an active policy has counted
  fewer than three.
\<close>

definition policy_inv :: "proctor \<Rightarrow> bool" where
  "policy_inv s \<longleftrightarrow> proctorWarnings s \<le> 3 \<and> (proctorActive s \<longrightarrow> proctorWarnings s < 3)"

section \<open>Properties\<close>

subsection \<open>The overall score of the local report\<close>

lemma js_eq_iff: "js a = js b \<longleftrightarrow> a = b"
  unfolding js_def by (simp add: inj_map_eq_map inj_on_def)

lemma foldl_plus_sum_list: "foldl (\<lambda>a b. a + b) a xs = a + sum_list (xs :: int list)"
  by (induction xs arbitrary: a) simp_all

lemma filtered_scores_eq:
  "map (\<lambda>qa. the (qa_score qa)) (filter (\<lambda>qa. truthy_score (qa_score qa)) qas) = included_scores qas"
  by (induction qas) (auto simp: included_scores_def split: option.splits)

lemma overallScore_eq:
  "overallScore (generateReportLocally interview qas us) =
     (if included_scores qas = [] then 60 else round (mean (included_scores qas)))"
  by (simp add: generateReportLocally_def Let_def filtered_scores_eq foldl_plus_sum_list
      Math_round_def round_def mean_def)

subsection \<open>The grade\<close>

lemma report_grade:
  "grade (generateReportLocally interview qas us)
     = generateReportLocally_grade (overallScore (generateReportLocally interview qas us))"
  by (simp add: generateReportLocally_def Let_def)

lemma overallScore_rows_scoring:
  "overallScore (generateReportLocally interview (rows_scoring s) us) = s"
  by (simp add: overallScore_eq rows_scoring_def included_scores_def mean_def)

text \<open>
  C4. The score-to-grade mapping is one total function at every call site: for every
  integer score \<open>s\<close> the helper of the interview route, the helper of the report route and
  the inline expression of \<open>generateReportLocally\<close> give the same grade, which is
  Excellent from 85, Good from 70, Average from 55, Needs Improvement from 40 and Poor
  below; 85, 84, 55 and 39 give Excellent, Good, Average and Poor. The grade of every
  local report is the inline expression, and so both helpers, at the report's overall
  score; and every integer \<open>s\<close> is the overall score of a local report (that of the rows
  \<open>rows_scoring s\<close>), whose grade is the grade of \<open>s\<close>.
\<close>

theorem scoreToGrade_agree:
  "scoreToGrade_interview s = scoreToGrade_report s
   \<and> generateReportLocally_grade s = scoreToGrade_interview s
   \<and> generateReportLocally_grade s = scoreToGrade_report s
   \<and> grade (generateReportLocally interview qas us)
       = generateReportLocally_grade (overallScore (generateReportLocally interview qas us))
   \<and> grade (generateReportLocally interview qas us)
       = scoreToGrade_interview (overallScore (generateReportLocally interview qas us))
   \<and> grade (generateReportLocally interview qas us)
       = scoreToGrade_report (overallScore (generateReportLocally interview qas us))
   \<and> overallScore (generateReportLocally interview (rows_scoring s) us) = s
   \<and> grade (generateReportLocally interview (rows_scoring s) us) = scoreToGrade_interview s
   \<and> grade (generateReportLocally interview (rows_scoring s) us) = scoreToGrade_report s
   \<and> scoreToGrade_interview s =
       (if 85 \<le> s then js ''Excellent'' else if 70 \<le> s then js ''Good''
        else if 55 \<le> s then js ''Average'' else if 40 \<le> s then js ''Needs Improvement''
        else js ''Poor'')
   \<and> scoreToGrade_interview 85 = js ''Excellent'' \<and> scoreToGrade_interview 84 = js ''Good''
   \<and> scoreToGrade_interview 55 = js ''Average'' \<and> scoreToGrade_interview 39 = js ''Poor''
   \<and> js ''Excellent'' \<noteq> js ''Good'' \<and> js ''Good'' \<noteq> js ''Average''
   \<and> js ''Average'' \<noteq> js ''Needs Improvement'' \<and> js ''Needs Improvement'' \<noteq> js ''Poor''"
  unfolding report_grade overallScore_rows_scoring
  by (simp add: scoreToGrade_interview_def scoreToGrade_report_def generateReportLocally_grade_def
      js_eq_iff)

subsection \<open>The local report\<close>

text \<open>
  C7. \<open>generateReportLocally\<close> returns a report for every interview row and every list
  of question rows (the function has no failing branch), and the report's overall score is
  the mean of the included scores rounded to the nearest integer when there is at least one
  included score, and 60 when there is none; in particular it is 60 for an interview with
  no rows at all.
\<close>

theorem generateReportLocally_overallScore:
  "overallScore (generateReportLocally interview qas us) =
     (if included_scores qas = [] then 60 else round (mean (included_scores qas)))
   \<and> overallScore (generateReportLocally interview [] us) = 60"
  by (simp add: overallScore_eq) (simp add: included_scores_def)

text \<open>A mean that ends in one half is rounded up: the scores 70 and 71 give 71.\<close>

lemma overallScore_rounds_half_up:
  "overallScore (generateReportLocally interview
      [\<lparr>question_text = js ''Q1'', answer_text = Some (js ''first answer''), qa_score = Some 70\<rparr>,
       \<lparr>question_text = js ''Q2'', answer_text = None, qa_score = None\<rparr>,
       \<lparr>question_text = js ''Q3'', answer_text = Some (js ''third answer''), qa_score = Some 71\<rparr>]
      us) = 71"
  by (simp add: overallScore_eq included_scores_def mean_def round_def)

lemma included_scores_skip_zero:
  "included_scores (map (\<lambda>qa. if qa_score qa = Some 0 then qa\<lparr>qa_score := None\<rparr> else qa) qas)
     = included_scores qas"
  by (induction qas) (auto simp: included_scores_def split: option.splits)

lemma included_scores_filter:
  "included_scores (filter (\<lambda>qa. qa_score qa \<noteq> None \<and> qa_score qa \<noteq> Some 0) qas)
     = included_scores qas"
  by (induction qas) (auto simp: included_scores_def split: option.splits)

lemma included_scores_all_zero:
  "(\<forall>qa \<in> set qas. qa_score qa = Some 0) \<Longrightarrow> included_scores qas = []"
  by (induction qas) (auto simp: included_scores_def)

text \<open>
  C10. Only answers with a truthy score enter the average. Replacing every score 0 by a
  missing score (the question was skipped) leaves the overall score unchanged, and so does
  removing the rows whose score is 0 or missing; when every row has score 0 the overall
  score is the default 60.
\<close>

theorem zero_scores_excluded:
  "overallScore (generateReportLocally interview
       (map (\<lambda>qa. if qa_score qa = Some 0 then qa\<lparr>qa_score := None\<rparr> else qa) qas) us)
     = overallScore (generateReportLocally interview qas us)
   \<and> overallScore (generateReportLocally interview
       (filter (\<lambda>qa. qa_score qa \<noteq> None \<and> qa_score qa \<noteq> Some 0) qas) us)
     = overallScore (generateReportLocally interview qas us)
   \<and> ((\<forall>qa \<in> set qas. qa_score qa = Some 0)
        \<longrightarrow> overallScore (generateReportLocally interview qas us) = 60)"
  unfolding overallScore_eq included_scores_skip_zero included_scores_filter
  by (simp add: included_scores_all_zero)

theorem zero_scores_excluded_witness:
  "qa_score \<lparr>question_text = js ''Q1'', answer_text = Some (js ''no idea''), qa_score = Some 0\<rparr> = Some 0
   \<and> qa_score \<lparr>question_text = js ''Q2'', answer_text = Some (js ''pass''), qa_score = Some 0\<rparr> = Some 0
   \<and> overallScore (generateReportLocally
        \<lparr>job_role = js ''Nurse'', interview_type = js ''technical'', difficulty = js ''Hard''\<rparr>
        [\<lparr>question_text = js ''Q1'', answer_text = Some (js ''no idea''), qa_score = Some 0\<rparr>,
         \<lparr>question_text = js ''Q2'', answer_text = Some (js ''pass''), qa_score = Some 0\<rparr>]
        \<lparr>u_communication = 0, u_relevance = 1 / 2, u_confidence = 1 / 3, u_structure = 3 / 4,
         u_depth = 99 / 100\<rparr>) = 60"
  using zero_scores_excluded
    [of "\<lparr>job_role = js ''Nurse'', interview_type = js ''technical'', difficulty = js ''Hard''\<rparr>"
        "[\<lparr>question_text = js ''Q1'', answer_text = Some (js ''no idea''), qa_score = Some 0\<rparr>,
          \<lparr>question_text = js ''Q2'', answer_text = Some (js ''pass''), qa_score = Some 0\<rparr>]"
        "\<lparr>u_communication = 0, u_relevance = 1 / 2, u_confidence = 1 / 3, u_structure = 3 / 4,
          u_depth = 99 / 100\<rparr>"]
  by simp

subsection \<open>Rounding to a double\<close>

lemma floor_rat_numeral:
  "\<lfloor>(numeral a :: rat) / numeral b\<rfloor> = numeral a div numeral b"
  using floor_divide_of_int_eq[of "numeral a" "numeral b", where ?'a = rat] by simp

lemma floor_rat_neg_numeral:
  "\<lfloor>- ((numeral a :: rat) / numeral b)\<rfloor> = - numeral a div numeral b"
  using floor_divide_of_int_eq[of "- numeral a" "numeral b", where ?'a = rat] by simp

lemma ulp_of_below: "0 < x \<Longrightarrow> x < 1 \<Longrightarrow> ulp_of x = ulp_of (2 * x) / 2"
  by (subst ulp_of.simps) simp

lemma ulp_of_above: "2 \<le> x \<Longrightarrow> ulp_of x = 2 * ulp_of (x / 2)"
  by (subst ulp_of.simps) simp

lemma ulp_of_unit: "1 \<le> x \<Longrightarrow> x < 2 \<Longrightarrow> ulp_of x = 1 / 2 ^ 52"
  by (subst ulp_of.simps) simp

lemmas ulp_eval = ulp_of_below ulp_of_above ulp_of_unit

lemmas double_eval =
  to_double_def ulp_eval round_half_even_def Let_def floor_rat_numeral floor_rat_neg_numeral

lemma ulp_of_double: assumes "0 < x" shows "ulp_of (2 * x) = 2 * ulp_of x"
proof (cases "x < 1")
  case True then show ?thesis using assms by (simp add: ulp_of_below)
next
  case False
  then have "2 \<le> 2 * x" by simp
  from ulp_of_above[OF this] show ?thesis by simp
qed

lemma ulp_of_half: assumes "0 < x" shows "ulp_of (x / 2) = ulp_of x / 2"
  using ulp_of_double[of "x / 2"] assms by simp

text \<open>A positive number lies from \<open>2 ^ 52\<close> to below \<open>2 ^ 53\<close> steps from 0.\<close>

lemma ulp_of_bounds:
  "0 < x \<Longrightarrow> 0 < ulp_of x \<and> 2 ^ 52 * ulp_of x \<le> x \<and> x < 2 ^ 53 * ulp_of x"
proof (induction x rule: ulp_of.induct)
  case (1 x)
  consider "x < 1" | "2 \<le> x" | "1 \<le> x" "x < 2" by linarith
  then show ?case
  proof cases
    case 1
    have "0 < ulp_of (2 * x) \<and> 2 ^ 52 * ulp_of (2 * x) \<le> 2 * x \<and> 2 * x < 2 ^ 53 * ulp_of (2 * x)"
      using 1 "1.prems" by (intro "1.IH"(1)) simp_all
    then show ?thesis using 1 "1.prems" by (simp add: ulp_of_below)
  next
    case 2
    have "0 < ulp_of (x / 2) \<and> 2 ^ 52 * ulp_of (x / 2) \<le> x / 2 \<and> x / 2 < 2 ^ 53 * ulp_of (x / 2)"
      using 2 "1.prems" by (intro "1.IH"(2)) simp_all
    then show ?thesis using 2 by (simp add: ulp_of_above)
  next
    case 3
    then show ?thesis by (simp add: ulp_of_unit)
  qed
qed

lemma ulp_of_small: "0 < x \<Longrightarrow> x < 1 \<Longrightarrow> ulp_of x \<le> 1 / 2 ^ 53"
proof (induction x rule: ulp_of.induct)
  case (1 x)
  show ?case
  proof (cases "2 * x < 1")
    case True
    have "ulp_of (2 * x) \<le> 1 / 2 ^ 53" using True "1.prems" by (intro "1.IH"(1)) simp_all
    then show ?thesis using "1.prems" by (simp add: ulp_of_below)
  next
    case False
    then have "ulp_of (2 * x) = 1 / 2 ^ 52" using "1.prems" by (intro ulp_of_unit) simp_all
    then show ?thesis using "1.prems" by (simp add: ulp_of_below)
  qed
qed

lemma ulp_of_below_4: assumes "0 < x" "x < 4" shows "ulp_of x \<le> 1 / 2 ^ 51"
proof -
  have "ulp_of (x / 2 / 2) \<le> 1 / 2 ^ 53" using assms by (intro ulp_of_small) simp_all
  moreover have "ulp_of (x / 2 / 2) = ulp_of (x / 2) / 2" using assms by (intro ulp_of_half) simp
  moreover have "ulp_of (x / 2) = ulp_of x / 2" using assms by (intro ulp_of_half) simp
  ultimately show ?thesis by simp
qed

lemma ulp_of_below_8: assumes "0 < x" "x < 8" shows "ulp_of x \<le> 1 / 2 ^ 50"
proof -
  have "ulp_of (x / 2) \<le> 1 / 2 ^ 51" using assms by (intro ulp_of_below_4) simp_all
  moreover have "ulp_of (x / 2) = ulp_of x / 2" using assms by (intro ulp_of_half) simp
  ultimately show ?thesis by simp
qed

lemma ulp_of_4_8: "4 \<le> x \<Longrightarrow> x < 8 \<Longrightarrow> ulp_of x = 1 / 2 ^ 50"
  by (simp add: ulp_eval)

lemma ulp_of_8_16: "8 \<le> x \<Longrightarrow> x < 16 \<Longrightarrow> ulp_of x = 1 / 2 ^ 49"
  by (simp add: ulp_eval)

lemma round_half_even_le: "y \<le> of_int m \<Longrightarrow> round_half_even y \<le> m"
proof -
  assume a: "y \<le> of_int m"
  then have f: "\<lfloor>y\<rfloor> \<le> m" by (simp add: floor_le_iff)
  show ?thesis
  proof (cases "\<lfloor>y\<rfloor> = m")
    case True
    then have "y = of_int m" using a by (metis of_int_floor_le order.antisym)
    then show ?thesis by (simp add: round_half_even_def)
  next
    case False
    then have "\<lfloor>y\<rfloor> + 1 \<le> m" using f by simp
    then show ?thesis by (simp add: round_half_even_def Let_def)
  qed
qed

lemma round_half_even_less: "y < of_int m - 1 / 2 \<Longrightarrow> round_half_even y \<le> m - 1"
proof -
  assume a: "y < of_int m - 1 / 2"
  then have "y < of_int m" by simp
  then have f: "\<lfloor>y\<rfloor> \<le> m - 1" by (simp add: floor_less_iff)
  show ?thesis
  proof (cases "\<lfloor>y\<rfloor> = m - 1")
    case True
    then have "y - of_int \<lfloor>y\<rfloor> < 1 / 2" using a by simp
    then show ?thesis using True by (simp add: round_half_even_def Let_def)
  next
    case False
    then have "\<lfloor>y\<rfloor> + 1 \<le> m - 1" using f by simp
    then show ?thesis by (simp add: round_half_even_def Let_def)
  qed
qed

lemma round_half_even_nonneg: "0 \<le> y \<Longrightarrow> 0 \<le> round_half_even y"
proof -
  assume "0 \<le> y"
  then have "0 \<le> \<lfloor>y\<rfloor>" by simp
  then show ?thesis by (simp add: round_half_even_def Let_def)
qed

lemma to_double_minus: "to_double (- x) = - to_double x"
  by (simp add: to_double_def)

lemma to_double_nonneg: assumes "0 \<le> x" shows "0 \<le> to_double x"
proof (cases "x = 0")
  case True then show ?thesis by (simp add: to_double_def)
next
  case False
  then have p: "0 < x" using assms by simp
  have u: "0 < ulp_of x" using ulp_of_bounds[OF p] by simp
  have "0 \<le> round_half_even (x / ulp_of x)" using p u by (intro round_half_even_nonneg) simp
  then show ?thesis using p u by (simp add: to_double_def)
qed

text \<open>Doubling is exact.\<close>

lemma to_double_twice: "to_double (x * 2) = 2 * to_double x"
proof -
  consider "x = 0" | "0 < x" | "x < 0" by linarith
  then show ?thesis
  proof cases
    case 1 then show ?thesis by (simp add: to_double_def)
  next
    case 2
    have "ulp_of (x * 2) = 2 * ulp_of x" using ulp_of_double[OF 2] by (simp add: mult.commute)
    then show ?thesis using 2 by (simp add: to_double_def)
  next
    case 3
    then have "0 < - x" by simp
    from ulp_of_double[OF this] have "ulp_of (- (x * 2)) = 2 * ulp_of (- x)" by (simp add: mult.commute)
    then show ?thesis using 3 by (simp add: to_double_def)
  qed
qed

text \<open>Rounding does not pass a double on the grid of the number that is rounded.\<close>

lemma to_double_le_grid:
  assumes "0 < x" "x \<le> of_int n * ulp_of x"
  shows "to_double x \<le> of_int n * ulp_of x"
proof -
  have u: "0 < ulp_of x" using ulp_of_bounds[OF assms(1)] by simp
  have "x / ulp_of x \<le> of_int n" using assms(2) u by (simp add: field_simps)
  then have "round_half_even (x / ulp_of x) \<le> n" by (rule round_half_even_le)
  then have "(of_int (round_half_even (x / ulp_of x)) :: rat) \<le> of_int n" by simp
  then have "of_int (round_half_even (x / ulp_of x)) * ulp_of x \<le> of_int n * ulp_of x"
    using u by (intro mult_right_mono) simp_all
  then show ?thesis using assms(1) by (simp add: to_double_def)
qed

lemma to_double_less_grid:
  assumes "0 < x" "x < (of_int n - 1 / 2) * ulp_of x"
  shows "to_double x \<le> of_int (n - 1) * ulp_of x"
proof -
  have u: "0 < ulp_of x" using ulp_of_bounds[OF assms(1)] by simp
  have "x / ulp_of x < of_int n - 1 / 2" using assms(2) u by (simp add: field_simps)
  then have "round_half_even (x / ulp_of x) \<le> n - 1" by (rule round_half_even_less)
  then have "(of_int (round_half_even (x / ulp_of x)) :: rat) \<le> of_int (n - 1)"
    by (simp only: of_int_le_iff)
  then have "of_int (round_half_even (x / ulp_of x)) * ulp_of x \<le> of_int (n - 1) * ulp_of x"
    using u by (intro mult_right_mono) simp_all
  then show ?thesis using assms(1) by (simp add: to_double_def)
qed

lemma to_double_binade:
  assumes "0 < x" "ulp_of x \<le> q"
  shows "to_double x \<le> 2 ^ 53 * q"
proof -
  have u: "0 < ulp_of x" and b: "x < 2 ^ 53 * ulp_of x" using ulp_of_bounds[OF assms(1)] by simp_all
  have "x \<le> of_int (2 ^ 53) * ulp_of x" using b by simp
  from to_double_le_grid[OF assms(1) this] have "to_double x \<le> 2 ^ 53 * ulp_of x" by simp
  also have "\<dots> \<le> 2 ^ 53 * q" using assms(2) by simp
  finally show ?thesis .
qed

lemma to_double_below_4: "0 < x \<Longrightarrow> x < 4 \<Longrightarrow> to_double x \<le> 4"
  using to_double_binade[OF _ ulp_of_below_4, of x] by simp

lemma to_double_below_8: "0 < x \<Longrightarrow> x < 8 \<Longrightarrow> to_double x \<le> 8"
  using to_double_binade[OF _ ulp_of_below_8, of x] by simp

text \<open>
  The product of a draw and the range stays one step below the range: a number that is
  at most \<open>r - r / 2 ^ 53\<close> is rounded to at most the last double before \<open>r\<close>.
\<close>

lemma to_double_before_10:
  assumes "0 \<le> x" "x \<le> 10 - 10 / 2 ^ 53"
  shows "0 \<le> to_double x \<and> to_double x \<le> 10 - 1 / 2 ^ 49"
proof -
  consider "x = 0" | "0 < x" "x < 8" | "8 \<le> x" using assms(1) by linarith
  then have "to_double x \<le> 10 - 1 / 2 ^ 49"
  proof cases
    case 1 then show ?thesis by (simp add: to_double_def)
  next
    case 2
    then have "to_double x \<le> 8" by (rule to_double_below_8)
    then show ?thesis by simp
  next
    case 3
    then have p: "0 < x" by simp
    have u: "ulp_of x = 1 / 2 ^ 49" using 3 assms(2) by (intro ulp_of_8_16) simp_all
    have "x < (of_int (10 * 2 ^ 49) - 1 / 2) * ulp_of x" using assms(2) by (simp add: u)
    from to_double_less_grid[OF p this] show ?thesis by (simp add: u)
  qed
  then show ?thesis using to_double_nonneg[OF assms(1)] by simp
qed

lemma to_double_before_12:
  assumes "0 \<le> x" "x \<le> 12 - 12 / 2 ^ 53"
  shows "0 \<le> to_double x \<and> to_double x \<le> 12 - 1 / 2 ^ 49"
proof -
  consider "x = 0" | "0 < x" "x < 8" | "8 \<le> x" using assms(1) by linarith
  then have "to_double x \<le> 12 - 1 / 2 ^ 49"
  proof cases
    case 1 then show ?thesis by (simp add: to_double_def)
  next
    case 2
    then have "to_double x \<le> 8" by (rule to_double_below_8)
    then show ?thesis by simp
  next
    case 3
    then have p: "0 < x" by simp
    have u: "ulp_of x = 1 / 2 ^ 49" using 3 assms(2) by (intro ulp_of_8_16) simp_all
    have "x < (of_int (12 * 2 ^ 49) - 1 / 2) * ulp_of x" using assms(2) by (simp add: u)
    from to_double_less_grid[OF p this] show ?thesis by (simp add: u)
  qed
  then show ?thesis using to_double_nonneg[OF assms(1)] by simp
qed

lemma to_double_before_8:
  assumes "0 \<le> x" "x \<le> 8 - 8 / 2 ^ 53"
  shows "0 \<le> to_double x \<and> to_double x \<le> 8 - 1 / 2 ^ 50"
proof -
  consider "x = 0" | "0 < x" "x < 4" | "4 \<le> x" using assms(1) by linarith
  then have "to_double x \<le> 8 - 1 / 2 ^ 50"
  proof cases
    case 1 then show ?thesis by (simp add: to_double_def)
  next
    case 2
    then have "to_double x \<le> 4" by (rule to_double_below_4)
    then show ?thesis by simp
  next
    case 3
    then have p: "0 < x" by simp
    have u: "ulp_of x = 1 / 2 ^ 50" using 3 assms(2) by (intro ulp_of_4_8) simp_all
    have "x \<le> of_int (2 ^ 53 - 1) * ulp_of x" using assms(2) by (simp add: u)
    from to_double_le_grid[OF p this] show ?thesis by (simp add: u)
  qed
  then show ?thesis using to_double_nonneg[OF assms(1)] by simp
qed

lemma to_double_up_to:
  assumes "0 < x" "x \<le> of_int r" "r = 8 \<or> r = 10 \<or> r = 12"
  shows "to_double x \<le> of_int r"
proof (cases "x < 8")
  case True
  with assms(1) have "to_double x \<le> 8" by (rule to_double_below_8)
  then show ?thesis using assms(3) by auto
next
  case False
  have r: "of_int r \<le> (12::rat)" using assms(3) by auto
  have u: "ulp_of x = 1 / 2 ^ 49" using False assms(2) r by (intro ulp_of_8_16) simp_all
  have "x \<le> of_int (r * 2 ^ 49) * ulp_of x" using assms(2) by (simp add: u)
  from to_double_le_grid[OF assms(1) this] show ?thesis by (simp add: u)
qed

text \<open>A double below 1 is at most \<open>1 - 2 ^ -53\<close>.\<close>

lemma unit_draw_bounds:
  assumes "unit_draw u"
  shows "0 \<le> u \<and> u \<le> 1 - 1 / 2 ^ 53"
proof (cases "u < 1 / 2")
  case True
  then show ?thesis using assms by (simp add: unit_draw_def)
next
  case False
  have u: "0 < u" "u < 1" "to_double u = u" using assms False by (simp_all add: unit_draw_def)
  have q: "ulp_of u = 1 / 2 ^ 53" using False u by (simp add: ulp_eval)
  define n where "n = round_half_even (u / ulp_of u)"
  have e: "u = of_int n / 2 ^ 53" using u by (simp add: to_double_def n_def q)
  then have "(of_int n :: rat) < of_int (2 ^ 53)" using u(2) by simp
  then have "n < 2 ^ 53" by (simp only: of_int_less_iff)
  then have "n \<le> 2 ^ 53 - 1" by simp
  then have "(of_int n :: rat) \<le> of_int (2 ^ 53 - 1)" by (simp only: of_int_le_iff)
  then have "u \<le> 1 - 1 / 2 ^ 53" by (simp add: e field_simps)
  then show ?thesis using u by simp
qed

subsection \<open>The sub-skill scores\<close>

lemma jitter_bounds:
  assumes "0 \<le> u" "u \<le> 1 - 1 / 2 ^ 53" "r = 8 \<or> r = 10 \<or> r = 12"
  shows "- r \<le> jitter r u \<and> jitter r u < r"
proof -
  define d :: rat where "d = (if r = 8 then 1 / 2 ^ 50 else 1 / 2 ^ 49)"
  have before: "0 \<le> to_double x \<and> to_double x \<le> of_int r - d"
    if "0 \<le> x" "x \<le> of_int r - of_int r / 2 ^ 53" for x
    using assms(3) that to_double_before_8[of x] to_double_before_10[of x] to_double_before_12[of x]
    by (auto simp add: d_def)
  have d: "0 < d" "of_int r / 2 ^ 53 \<le> d" using assms(3) by (auto simp add: d_def)
  have r: "(0::rat) < of_int r" using assms(3) by auto
  define a where "a = to_double (u * of_int r)"
  define b where "b = to_double (a * 2)"
  define c where "c = to_double (b - of_int r)"
  have "u * of_int r \<le> (1 - 1 / 2 ^ 53) * of_int r" using assms(2) r by (intro mult_right_mono) simp_all
  then have "u * of_int r \<le> of_int r - of_int r / 2 ^ 53" by (simp add: algebra_simps)
  moreover have "0 \<le> u * of_int r" using assms(1) r by simp
  ultimately have a: "0 \<le> a" "a \<le> of_int r - d" unfolding a_def using before by simp_all
  have "0 \<le> to_double a \<and> to_double a \<le> of_int r - d" using a d by (intro before) simp_all
  then have b: "0 \<le> b" "b \<le> 2 * of_int r - 2 * d" unfolding b_def by (simp_all add: to_double_twice)
  have c: "- of_int r \<le> c \<and> c < of_int r"
  proof (cases "0 \<le> b - of_int r")
    case True
    have "0 \<le> c \<and> c \<le> of_int r - d" unfolding c_def using True b d by (intro before) simp_all
    then show ?thesis using d r by simp
  next
    case False
    then have p: "0 < - (b - of_int r)" by simp
    have "- (b - of_int r) \<le> of_int r" using b by simp
    from to_double_up_to[OF p this assms(3)] have "- of_int r \<le> c"
      unfolding c_def using to_double_minus[of "b - of_int r"] by simp
    moreover have "0 \<le> to_double (- (b - of_int r))" using p by (intro to_double_nonneg) simp
    then have "c \<le> 0" unfolding c_def using to_double_minus[of "b - of_int r"] by simp
    ultimately show ?thesis using r by simp
  qed
  have "of_int (- r) \<le> c" using c by simp
  then have "- r \<le> \<lfloor>c\<rfloor>" by (simp only: le_floor_iff)
  moreover have "\<lfloor>c\<rfloor> < r" using c by (simp add: floor_less_iff)
  ultimately show ?thesis by (simp add: jitter_def a_def b_def c_def)
qed

lemma jitter_unit_draw:
  assumes "unit_draw u" "r = 8 \<or> r = 10 \<or> r = 12"
  shows "- r \<le> jitter r u \<and> jitter r u < r"
  using unit_draw_bounds[OF assms(1)] assms(2) by (intro jitter_bounds) simp_all

text \<open>
  Both ends are reached: the draw 0 gives the offset \<open>- range\<close>, and the last double
  before 1 gives \<open>range - 1\<close>.
\<close>

lemma jitter_extremes:
  "unit_draw 0 \<and> unit_draw (1 - 1 / 2 ^ 53)
   \<and> jitter 10 0 = - 10 \<and> jitter 8 0 = - 8 \<and> jitter 12 0 = - 12
   \<and> jitter 10 (1 - 1 / 2 ^ 53) = 9 \<and> jitter 8 (1 - 1 / 2 ^ 53) = 7
   \<and> jitter 12 (1 - 1 / 2 ^ 53) = 11"
  by (simp add: unit_draw_def jitter_def double_eval)

text \<open>
  The products are rounded: the draw \<open>4278419646001971 / 2 ^ 52\<close>, the double nearest to
  0.95, is below 0.95, its product with 10 is rounded to 9.5 and the offset is 9, where
  the exact product would give 8.
\<close>

lemma jitter_rounds_product:
  "unit_draw (4278419646001971 / 2 ^ 52)
   \<and> (4278419646001971 / 2 ^ 52 :: rat) < 95 / 100
   \<and> to_double (4278419646001971 / 2 ^ 52 * 10) = 19 / 2
   \<and> jitter 10 (4278419646001971 / 2 ^ 52) = 9
   \<and> \<lfloor>(4278419646001971 / 2 ^ 52 :: rat) * 10 * 2 - 10\<rfloor> = 8"
  by (simp add: unit_draw_def jitter_def double_eval)

lemma vary_clamp: "vary b r u = clamp (b + jitter r u) 0 100"
  by (simp add: vary_def clamp_def)

lemma vary_range: "0 \<le> vary b r u \<and> vary b r u \<le> 100"
  by (simp add: vary_def)

lemma report_fields:
    "communication (generateReportLocally interview qas us)
       = vary (overallScore (generateReportLocally interview qas us)) 10 (u_communication us)"
    "relevance (generateReportLocally interview qas us)
       = vary (overallScore (generateReportLocally interview qas us)) 10 (u_relevance us)"
    "confidence (generateReportLocally interview qas us)
       = vary (overallScore (generateReportLocally interview qas us)) 8 (u_confidence us)"
    "structure' (generateReportLocally interview qas us)
       = vary (overallScore (generateReportLocally interview qas us)) 10 (u_structure us)"
    "depth (generateReportLocally interview qas us)
       = vary (overallScore (generateReportLocally interview qas us)) 12 (u_depth us)"
  unfolding generateReportLocally_def Let_def by simp_all

text \<open>
  C8 (as amended). When the five values of \<open>Math.random()\<close> are doubles that are at least
  0 and below 1, each of the five sub-skill scores is \<open>clamp (overallScore + j) 0 100\<close>
  where the offset \<open>j = Math.floor(Math.random() * range * 2 - range)\<close>, computed in
  double arithmetic, is an integer with \<open>- range \<le> j\<close> and \<open>j < range\<close> (the offset
  \<open>+ range\<close> is never drawn), the range being 10 for communication, relevance and
  structure, 8 for confidence and 12 for depth; every sub-skill score lies in \<open>[0, 100]\<close>.
\<close>

theorem subskill_scores:
  assumes "unit_draws us"
  shows "communication (generateReportLocally interview qas us)
           = clamp (overallScore (generateReportLocally interview qas us) + jitter 10 (u_communication us)) 0 100
       \<and> relevance (generateReportLocally interview qas us)
           = clamp (overallScore (generateReportLocally interview qas us) + jitter 10 (u_relevance us)) 0 100
       \<and> confidence (generateReportLocally interview qas us)
           = clamp (overallScore (generateReportLocally interview qas us) + jitter 8 (u_confidence us)) 0 100
       \<and> structure' (generateReportLocally interview qas us)
           = clamp (overallScore (generateReportLocally interview qas us) + jitter 10 (u_structure us)) 0 100
       \<and> depth (generateReportLocally interview qas us)
           = clamp (overallScore (generateReportLocally interview qas us) + jitter 12 (u_depth us)) 0 100
       \<and> - 10 \<le> jitter 10 (u_communication us) \<and> jitter 10 (u_communication us) < 10
       \<and> - 10 \<le> jitter 10 (u_relevance us) \<and> jitter 10 (u_relevance us) < 10
       \<and> - 8 \<le> jitter 8 (u_confidence us) \<and> jitter 8 (u_confidence us) < 8
       \<and> - 10 \<le> jitter 10 (u_structure us) \<and> jitter 10 (u_structure us) < 10
       \<and> - 12 \<le> jitter 12 (u_depth us) \<and> jitter 12 (u_depth us) < 12
       \<and> 0 \<le> communication (generateReportLocally interview qas us)
       \<and> communication (generateReportLocally interview qas us) \<le> 100
       \<and> 0 \<le> relevance (generateReportLocally interview qas us)
       \<and> relevance (generateReportLocally interview qas us) \<le> 100
       \<and> 0 \<le> confidence (generateReportLocally interview qas us)
       \<and> confidence (generateReportLocally interview qas us) \<le> 100
       \<and> 0 \<le> structure' (generateReportLocally interview qas us)
       \<and> structure' (generateReportLocally interview qas us) \<le> 100
       \<and> 0 \<le> depth (generateReportLocally interview qas us)
       \<and> depth (generateReportLocally interview qas us) \<le> 100"
proof -
  note fields = report_fields[of interview qas us]
  have j1: "- 10 \<le> jitter 10 (u_communication us) \<and> jitter 10 (u_communication us) < 10"
    using assms by (intro jitter_unit_draw) (simp_all add: unit_draws_def)
  have j2: "- 10 \<le> jitter 10 (u_relevance us) \<and> jitter 10 (u_relevance us) < 10"
    using assms by (intro jitter_unit_draw) (simp_all add: unit_draws_def)
  have j3: "- 8 \<le> jitter 8 (u_confidence us) \<and> jitter 8 (u_confidence us) < 8"
    using assms by (intro jitter_unit_draw) (simp_all add: unit_draws_def)
  have j4: "- 10 \<le> jitter 10 (u_structure us) \<and> jitter 10 (u_structure us) < 10"
    using assms by (intro jitter_unit_draw) (simp_all add: unit_draws_def)
  have j5: "- 12 \<le> jitter 12 (u_depth us) \<and> jitter 12 (u_depth us) < 12"
    using assms by (intro jitter_unit_draw) (simp_all add: unit_draws_def)
  have main: "communication (generateReportLocally interview qas us)
           = clamp (overallScore (generateReportLocally interview qas us) + jitter 10 (u_communication us)) 0 100
       \<and> relevance (generateReportLocally interview qas us)
           = clamp (overallScore (generateReportLocally interview qas us) + jitter 10 (u_relevance us)) 0 100
       \<and> confidence (generateReportLocally interview qas us)
           = clamp (overallScore (generateReportLocally interview qas us) + jitter 8 (u_confidence us)) 0 100
       \<and> structure' (generateReportLocally interview qas us)
           = clamp (overallScore (generateReportLocally interview qas us) + jitter 10 (u_structure us)) 0 100
       \<and> depth (generateReportLocally interview qas us)
           = clamp (overallScore (generateReportLocally interview qas us) + jitter 12 (u_depth us)) 0 100"
    unfolding fields by (simp add: vary_clamp)
  have rng: "0 \<le> communication (generateReportLocally interview qas us)
       \<and> communication (generateReportLocally interview qas us) \<le> 100
       \<and> 0 \<le> relevance (generateReportLocally interview qas us)
       \<and> relevance (generateReportLocally interview qas us) \<le> 100
       \<and> 0 \<le> confidence (generateReportLocally interview qas us)
       \<and> confidence (generateReportLocally interview qas us) \<le> 100
       \<and> 0 \<le> structure' (generateReportLocally interview qas us)
       \<and> structure' (generateReportLocally interview qas us) \<le> 100
       \<and> 0 \<le> depth (generateReportLocally interview qas us)
       \<and> depth (generateReportLocally interview qas us) \<le> 100"
    unfolding fields by (simp add: vary_range)
  show ?thesis
    using main j1 j2 j3 j4 j5 rng by blast
qed

theorem subskill_scores_witness:
  "unit_draws \<lparr>u_communication = 0, u_relevance = 1 / 2, u_confidence = 1 / 4,
          u_structure = 3 / 4, u_depth = 15 / 16\<rparr>
   \<and> overallScore (generateReportLocally
        \<lparr>job_role = js ''Nurse'', interview_type = js ''technical'', difficulty = js ''Hard''\<rparr>
        [\<lparr>question_text = js ''Q1'', answer_text = Some (js ''first answer''), qa_score = Some 98\<rparr>,
          \<lparr>question_text = js ''Q2'', answer_text = Some (js ''second answer''), qa_score = Some 97\<rparr>]
        \<lparr>u_communication = 0, u_relevance = 1 / 2, u_confidence = 1 / 4,
          u_structure = 3 / 4, u_depth = 15 / 16\<rparr>) = 98
   \<and> communication (generateReportLocally
        \<lparr>job_role = js ''Nurse'', interview_type = js ''technical'', difficulty = js ''Hard''\<rparr>
        [\<lparr>question_text = js ''Q1'', answer_text = Some (js ''first answer''), qa_score = Some 98\<rparr>,
          \<lparr>question_text = js ''Q2'', answer_text = Some (js ''second answer''), qa_score = Some 97\<rparr>]
        \<lparr>u_communication = 0, u_relevance = 1 / 2, u_confidence = 1 / 4,
          u_structure = 3 / 4, u_depth = 15 / 16\<rparr>) = 88
   \<and> relevance (generateReportLocally
        \<lparr>job_role = js ''Nurse'', interview_type = js ''technical'', difficulty = js ''Hard''\<rparr>
        [\<lparr>question_text = js ''Q1'', answer_text = Some (js ''first answer''), qa_score = Some 98\<rparr>,
          \<lparr>question_text = js ''Q2'', answer_text = Some (js ''second answer''), qa_score = Some 97\<rparr>]
        \<lparr>u_communication = 0, u_relevance = 1 / 2, u_confidence = 1 / 4,
          u_structure = 3 / 4, u_depth = 15 / 16\<rparr>) = 98
   \<and> confidence (generateReportLocally
        \<lparr>job_role = js ''Nurse'', interview_type = js ''technical'', difficulty = js ''Hard''\<rparr>
        [\<lparr>question_text = js ''Q1'', answer_text = Some (js ''first answer''), qa_score = Some 98\<rparr>,
          \<lparr>question_text = js ''Q2'', answer_text = Some (js ''second answer''), qa_score = Some 97\<rparr>]
        \<lparr>u_communication = 0, u_relevance = 1 / 2, u_confidence = 1 / 4,
          u_structure = 3 / 4, u_depth = 15 / 16\<rparr>) = 94
   \<and> structure' (generateReportLocally
        \<lparr>job_role = js ''Nurse'', interview_type = js ''technical'', difficulty = js ''Hard''\<rparr>
        [\<lparr>question_text = js ''Q1'', answer_text = Some (js ''first answer''), qa_score = Some 98\<rparr>,
          \<lparr>question_text = js ''Q2'', answer_text = Some (js ''second answer''), qa_score = Some 97\<rparr>]
        \<lparr>u_communication = 0, u_relevance = 1 / 2, u_confidence = 1 / 4,
          u_structure = 3 / 4, u_depth = 15 / 16\<rparr>) = 100
   \<and> depth (generateReportLocally
        \<lparr>job_role = js ''Nurse'', interview_type = js ''technical'', difficulty = js ''Hard''\<rparr>
        [\<lparr>question_text = js ''Q1'', answer_text = Some (js ''first answer''), qa_score = Some 98\<rparr>,
          \<lparr>question_text = js ''Q2'', answer_text = Some (js ''second answer''), qa_score = Some 97\<rparr>]
        \<lparr>u_communication = 0, u_relevance = 1 / 2, u_confidence = 1 / 4,
          u_structure = 3 / 4, u_depth = 15 / 16\<rparr>) = 100"
  using subskill_scores
    [of "\<lparr>u_communication = 0, u_relevance = 1 / 2, u_confidence = 1 / 4,
          u_structure = 3 / 4, u_depth = 15 / 16\<rparr>"
        "\<lparr>job_role = js ''Nurse'', interview_type = js ''technical'', difficulty = js ''Hard''\<rparr>"
        "[\<lparr>question_text = js ''Q1'', answer_text = Some (js ''first answer''), qa_score = Some 98\<rparr>,
          \<lparr>question_text = js ''Q2'', answer_text = Some (js ''second answer''), qa_score = Some 97\<rparr>]"]
  by (simp add: unit_draws_def unit_draw_def report_fields overallScore_eq included_scores_def
      mean_def round_def vary_def jitter_def double_eval)

text \<open>
  The claim as stated lets the offset reach \<open>+ range\<close>. It never does: with no rows the
  overall score is 60, and no value of \<open>Math.random()\<close> makes the communication score 70.
\<close>

theorem subskill_never_plus_range:
  "\<not> (\<exists>interview us. unit_draws us \<and>
        communication (generateReportLocally interview [] us)
          = overallScore (generateReportLocally interview [] us) + 10)"
proof
  assume "\<exists>interview us. unit_draws us \<and>
        communication (generateReportLocally interview [] us)
          = overallScore (generateReportLocally interview [] us) + 10"
  then obtain interview us where u: "unit_draws us"
    and c: "communication (generateReportLocally interview [] us)
          = overallScore (generateReportLocally interview [] us) + 10" by blast
  have "unit_draw (u_communication us)" using u by (simp add: unit_draws_def)
  then have "jitter 10 (u_communication us) < 10"
    using jitter_unit_draw[of "u_communication us" 10] by simp
  moreover have "overallScore (generateReportLocally interview [] us) = 60"
    by (simp add: overallScore_eq included_scores_def)
  moreover have "communication (generateReportLocally interview [] us) = vary 60 10 (u_communication us)"
    by (simp add: report_fields overallScore_eq included_scores_def)
  ultimately show False using c by (simp add: vary_def)
qed

subsection \<open>The answer route\<close>

text \<open>
  C9. A submission whose \<open>questionId\<close> is missing (or falsy in any other way), or whose
  \<open>answerText\<close> is a string with fewer than 5 units after trimming, is answered with
  status 400 and the validation message, and the handler has done nothing else by then: no
  database read or write, no call of the Gemini API, no local evaluation.
\<close>

theorem invalid_answer_rejected:
  "\<not> truthy questionId \<or> (\<exists>text. answerText = String text \<and> length (js_trim text) < 5)
   \<Longrightarrow> post_answer questionId answerText env
       = (Reply 400 (js ''questionId and answerText (min 5 chars) are required.''), [])"
  by (auto simp: post_answer_def)

theorem invalid_answer_rejected_witness:
  "post_answer Undefined (String (js ''I led a team of five engineers.''))
      \<lparr>found_interview = Some \<lparr>job_role = js ''Nurse'', interview_type = js ''technical'', difficulty = js ''Hard''\<rparr>,
       found_question = Some (js ''Describe how caching works and when you would implement it.''),
       gemini_feedback = None, phrase_draws = (0, 1 / 2, 9 / 10), inserted_id = Some 7\<rparr>
     = (Reply 400 (js ''questionId and answerText (min 5 chars) are required.''), [])
   \<and> length (js_trim (js ''  ok   '')) = 2
   \<and> post_answer (Number 12) (String (js ''  ok   ''))
      \<lparr>found_interview = Some \<lparr>job_role = js ''Nurse'', interview_type = js ''technical'', difficulty = js ''Hard''\<rparr>,
       found_question = Some (js ''Describe how caching works and when you would implement it.''),
       gemini_feedback = None, phrase_draws = (0, 1 / 2, 9 / 10), inserted_id = Some 7\<rparr>
     = (Reply 400 (js ''questionId and answerText (min 5 chars) are required.''), [])"
  using invalid_answer_rejected
    [of Undefined "String (js ''I led a team of five engineers.'')"
      "\<lparr>found_interview = Some \<lparr>job_role = js ''Nurse'', interview_type = js ''technical'', difficulty = js ''Hard''\<rparr>,
       found_question = Some (js ''Describe how caching works and when you would implement it.''),
       gemini_feedback = None, phrase_draws = (0, 1 / 2, 9 / 10), inserted_id = Some 7\<rparr>"]
    invalid_answer_rejected
    [of "Number 12" "String (js ''  ok   '')"
      "\<lparr>found_interview = Some \<lparr>job_role = js ''Nurse'', interview_type = js ''technical'', difficulty = js ''Hard''\<rparr>,
       found_question = Some (js ''Describe how caching works and when you would implement it.''),
       gemini_feedback = None, phrase_draws = (0, 1 / 2, 9 / 10), inserted_id = Some 7\<rparr>"]
  by (simp add: js_trim_def js_def is_space_def)

subsection \<open>The proctoring policy\<close>

lemma step_inv: "policy_inv s \<Longrightarrow> policy_inv (fst (step s e))"
  by (cases e)
     (auto simp: policy_inv_def startProctoring_def stopProctoring_def handleProctorViolation_def
        cooldownTimerFires_def MAX_PROCTOR_WARNINGS_def Let_def)

lemma run_inv: "policy_inv s \<Longrightarrow> policy_inv (fst (run s es))"
proof (induction es arbitrary: s)
  case Nil
  then show ?case by simp
next
  case (Cons e es)
  have "policy_inv (fst (step s e))" using Cons.prems by (rule step_inv)
  then have "policy_inv (fst (run (fst (step s e)) es))" by (rule Cons.IH)
  then show ?case by (simp add: split_def Let_def)
qed

lemma inactive_quiet:
  "\<not> proctorActive s \<Longrightarrow> Start \<notin> set es \<Longrightarrow>
   snd (run s es) = [] \<and> proctorWarnings (fst (run s es)) = proctorWarnings s
   \<and> \<not> proctorActive (fst (run s es))"
proof (induction es arbitrary: s)
  case Nil
  then show ?case by simp
next
  case (Cons e es)
  have e: "e \<noteq> Start" and es: "Start \<notin> set es" using Cons.prems(2) by auto
  have st: "\<not> proctorActive (fst (step s e)) \<and> snd (step s e) = []
            \<and> proctorWarnings (fst (step s e)) = proctorWarnings s"
    using Cons.prems(1) e
    by (cases e) (auto simp: stopProctoring_def handleProctorViolation_def cooldownTimerFires_def)
  from Cons.IH[of "fst (step s e)"] st es show ?case
    by (simp add: split_def Let_def)
qed


text \<open>
  C6. In every state \<open>s\<close> that a session reaches from the loaded page: a violation
  changes nothing and shows nothing when the policy is not active or the cooldown is
  engaged; otherwise it adds one to the warning count and engages the cooldown, and it
  shows the warning with the reason and the new count while that count is below 3, whereas
  the violation that brings the count to 3 shows the terminated modal and deactivates the
  policy. The count never exceeds 3 and is below 3 while the policy is active; once the
  policy is inactive, no sequence of events without an activation shows anything or changes
  the count; and an activation of an inactive policy sets the count to 0 and the cooldown to
  false.
\<close>

theorem proctoring_policy:
  assumes "s = fst (run page_loaded evs)"
  shows "(\<not> proctorActive s \<or> proctorCooldown s \<longrightarrow> handleProctorViolation reason s = (s, []))
     \<and> (proctorActive s \<and> \<not> proctorCooldown s \<longrightarrow>
          proctorWarnings (fst (handleProctorViolation reason s)) = proctorWarnings s + 1
          \<and> proctorCooldown (fst (handleProctorViolation reason s))
          \<and> (if proctorWarnings s + 1 < 3
              then snd (handleProctorViolation reason s)
                     = [ShowProctorWarning reason (proctorWarnings s + 1)]
                   \<and> proctorActive (fst (handleProctorViolation reason s))
              else proctorWarnings s + 1 = 3
                   \<and> snd (handleProctorViolation reason s) = [ShowInterviewTerminated reason]
                   \<and> \<not> proctorActive (fst (handleProctorViolation reason s))))
     \<and> proctorWarnings s \<le> 3
     \<and> (proctorActive s \<longrightarrow> proctorWarnings s < 3)
     \<and> (\<not> proctorActive s \<and> Start \<notin> set later \<longrightarrow>
          snd (run s later) = [] \<and> proctorWarnings (fst (run s later)) = proctorWarnings s
          \<and> \<not> proctorActive (fst (run s later)))
     \<and> (\<not> proctorActive s \<longrightarrow>
          startProctoring s = s\<lparr>proctorActive := True, proctorWarnings := 0, proctorCooldown := False\<rparr>)"
proof -
  have "policy_inv page_loaded" by (simp add: policy_inv_def page_loaded_def)
  then have inv: "policy_inv s" unfolding assms by (rule run_inv)
  have a: "\<not> proctorActive s \<or> proctorCooldown s \<longrightarrow> handleProctorViolation reason s = (s, [])"
    by (auto simp: handleProctorViolation_def)
  have b: "proctorActive s \<and> \<not> proctorCooldown s \<longrightarrow>
          proctorWarnings (fst (handleProctorViolation reason s)) = proctorWarnings s + 1
          \<and> proctorCooldown (fst (handleProctorViolation reason s))
          \<and> (if proctorWarnings s + 1 < 3
              then snd (handleProctorViolation reason s)
                     = [ShowProctorWarning reason (proctorWarnings s + 1)]
                   \<and> proctorActive (fst (handleProctorViolation reason s))
              else proctorWarnings s + 1 = 3
                   \<and> snd (handleProctorViolation reason s) = [ShowInterviewTerminated reason]
                   \<and> \<not> proctorActive (fst (handleProctorViolation reason s)))"
    using inv
    by (auto simp: handleProctorViolation_def stopProctoring_def MAX_PROCTOR_WARNINGS_def
        policy_inv_def Let_def)
  have c: "proctorWarnings s \<le> 3 \<and> (proctorActive s \<longrightarrow> proctorWarnings s < 3)"
    using inv by (simp add: policy_inv_def)
  have d: "\<not> proctorActive s \<and> Start \<notin> set later \<longrightarrow>
          snd (run s later) = [] \<and> proctorWarnings (fst (run s later)) = proctorWarnings s
          \<and> \<not> proctorActive (fst (run s later))"
    using inactive_quiet[of s later] by blast
  have e: "\<not> proctorActive s \<longrightarrow>
          startProctoring s = s\<lparr>proctorActive := True, proctorWarnings := 0, proctorCooldown := False\<rparr>"
    by (simp add: startProctoring_def)
  show ?thesis using a b c d e by blast
qed

theorem proctoring_policy_witness:
  "fst (run page_loaded [Start, Violation (js ''tab''), Violation (js ''blur''), TimerFires,
             Violation (js ''move''), TimerFires])
     = \<lparr>proctorWarnings = 2, proctorActive = True, proctorCooldown = False, cooldownTimers = 0\<rparr>
   \<and> snd (run page_loaded [Start, Violation (js ''tab''), Violation (js ''blur''), TimerFires,
             Violation (js ''move''), TimerFires])
     = [ShowProctorWarning (js ''tab'') 1, ShowProctorWarning (js ''move'') 2]
   \<and> handleProctorViolation (js ''tab'')
        \<lparr>proctorWarnings = 2, proctorActive = True, proctorCooldown = False, cooldownTimers = 0\<rparr>
     = (\<lparr>proctorWarnings = 3, proctorActive = False, proctorCooldown = True, cooldownTimers = 1\<rparr>,
        [ShowInterviewTerminated (js ''tab'')])
   \<and> run \<lparr>proctorWarnings = 3, proctorActive = False, proctorCooldown = True, cooldownTimers = 1\<rparr>
          [TimerFires, Violation (js ''blur''), Stop, Violation (js ''move'')]
     = (\<lparr>proctorWarnings = 3, proctorActive = False, proctorCooldown = False, cooldownTimers = 0\<rparr>, [])"
  using proctoring_policy
    [of "\<lparr>proctorWarnings = 2, proctorActive = True, proctorCooldown = False, cooldownTimers = 0\<rparr>"
        "[Start, Violation (js ''tab''), Violation (js ''blur''), TimerFires,
             Violation (js ''move''), TimerFires]"
        "js ''tab''" "[]"]
    proctoring_policy
    [of "\<lparr>proctorWarnings = 3, proctorActive = False, proctorCooldown = True, cooldownTimers = 1\<rparr>"
        "[Start, Violation (js ''tab''), Violation (js ''blur''), TimerFires,
             Violation (js ''move''), TimerFires, Violation (js ''tab'')]"
        "js ''late''" "[TimerFires, Violation (js ''blur''), Stop, Violation (js ''move'')]"]
  by (simp add: page_loaded_def startProctoring_def stopProctoring_def handleProctorViolation_def
      cooldownTimerFires_def MAX_PROCTOR_WARNINGS_def Let_def)

subsection \<open>The shuffle of generateLocalQuestions\<close>

lemma three_not_dvd_power_two: "\<not> 3 dvd (2::nat) ^ m"
proof (induction m)
  case 0
  show ?case by simp
next
  case (Suc m)
  have "\<not> 3 dvd 2 * x" if "\<not> 3 dvd x" for x :: nat using that by presburger
  then show ?case using Suc by simp
qed

lemma shuffle_probability_dyadic:
  "shuffle_probability b t p =
     of_nat (length (filter (\<lambda>ds. run_sort t (stream_of ds) 0 = p)
                       (List.n_lists (calls t) (random_values b)))) / 2 ^ (b * calls t)"
  by (simp add: shuffle_probability_def length_n_lists random_values_def power_mult)

lemma dyadic_not_inverse_factorial:
  assumes "3 \<le> n"
  shows "(of_nat k :: rat) / 2 ^ m \<noteq> 1 / of_nat (fact n)"
proof
  assume "(of_nat k :: rat) / 2 ^ m = 1 / of_nat (fact n)"
  then have "(of_nat k :: rat) * of_nat (fact n) = 2 ^ m"
    by (simp add: field_simps)
  then have "(of_nat (k * fact n) :: rat) = of_nat (2 ^ m)" by simp
  then have eq: "k * fact n = (2::nat) ^ m" by (simp only: of_nat_eq_iff)
  have "(3::nat) dvd fact n" using assms by (intro dvd_fact) simp_all
  then have "3 dvd k * fact n" by (rule dvd_mult)
  then show False using eq three_not_dvd_power_two by simp
qed

lemma shuffle_probability_not_uniform:
  "3 \<le> n \<Longrightarrow> shuffle_probability b t p \<noteq> 1 / of_nat (fact n)"
  unfolding shuffle_probability_dyadic by (rule dyadic_not_inverse_factorial)

lemma run_sort_rearranges: "rearranges n t \<Longrightarrow> mset (run_sort t rnd i) = mset [0..<n]"
proof (induction t arbitrary: i)
  case (Result p)
  then have "sort p = [0..<n]" by simp
  then have "mset (sort p) = mset [0..<n]" by simp
  then show ?case by simp
next
  case (Compare neg zero pos)
  then show ?case by simp
qed

lemma mset_map_nth:
  assumes "mset p = mset [0..<length xs]"
  shows "mset (map (\<lambda>i. xs ! i) p) = mset xs"
proof -
  have "mset (map (\<lambda>i. xs ! i) p) = image_mset (\<lambda>i. xs ! i) (mset p)" by simp
  also have "\<dots> = image_mset (\<lambda>i. xs ! i) (mset [0..<length xs])" by (simp only: assms)
  also have "\<dots> = mset (map (\<lambda>i. xs ! i) [0..<length xs])" by simp
  also have "\<dots> = mset xs" by (simp only: map_nth)
  finally show ?thesis .
qed

lemma js_sort_random_mset:
  "rearranges (length xs) t \<Longrightarrow> mset (js_sort_random t rnd xs) = mset xs"
  unfolding js_sort_random_def by (intro mset_map_nth run_sort_rearranges)

text \<open>
  C2 (as amended). The shuffle step of \<open>generateLocalQuestions\<close> sorts a copy of the pool
  with a comparator that answers at random. When the engine's sort rearranges its input,
  the result is a permutation of the pool; the probability of each order is a multiple of
  \<open>1 / 2 ^ (b * calls t)\<close>, so for a pool of three or more questions no order has the
  probability \<open>1 / n!\<close> of a uniformly random permutation: the orders are not equally
  likely, whatever the engine's sort and the number of random bits.
\<close>

theorem shuffle_is_biased:
  assumes "rearranges (length pool) t" and "3 \<le> length pool"
  shows "mset (js_sort_random t rnd pool) = mset pool
       \<and> (\<exists>k. shuffle_probability b t p = of_nat k / 2 ^ (b * calls t))
       \<and> shuffle_probability b t p \<noteq> 1 / of_nat (fact (length pool))
       \<and> \<not> uniform_shuffle b t (length pool)"
proof -
  have "mset [0..<length pool] = mset [0..<length pool]" by simp
  moreover have "shuffle_probability b t [0..<length pool] \<noteq> 1 / of_nat (fact (length pool))"
    using assms(2) by (rule shuffle_probability_not_uniform)
  ultimately have "\<not> uniform_shuffle b t (length pool)"
    unfolding uniform_shuffle_def by blast
  then show ?thesis
    using js_sort_random_mset[OF assms(1)] shuffle_probability_not_uniform[OF assms(2)]
      shuffle_probability_dyadic by blast
qed

theorem shuffle_is_biased_witness:
  "rearranges (length [js ''a'', js ''b'', js ''c''])
      (Compare (Compare (Result [0, 1, 2]) (Result [0, 1, 2])
                   (Compare (Result [0, 2, 1]) (Result [0, 2, 1]) (Result [2, 0, 1])))
                (Result [0, 1, 2])
                (Compare (Result [1, 0, 2]) (Result [1, 0, 2])
                   (Compare (Result [1, 2, 0]) (Result [1, 2, 0]) (Result [2, 1, 0]))))
   \<and> 3 \<le> length [js ''a'', js ''b'', js ''c'']
   \<and> js_sort_random
      (Compare (Compare (Result [0, 1, 2]) (Result [0, 1, 2])
                   (Compare (Result [0, 2, 1]) (Result [0, 2, 1]) (Result [2, 0, 1])))
                (Result [0, 1, 2])
                (Compare (Result [1, 0, 2]) (Result [1, 0, 2])
                   (Compare (Result [1, 2, 0]) (Result [1, 2, 0]) (Result [2, 1, 0]))))
      (\<lambda>i. if i = 0 then 3 / 4 else 1 / 4) [js ''a'', js ''b'', js ''c'']
     = [js ''b'', js ''a'', js ''c'']
   \<and> map (shuffle_probability 2
      (Compare (Compare (Result [0, 1, 2]) (Result [0, 1, 2])
                   (Compare (Result [0, 2, 1]) (Result [0, 2, 1]) (Result [2, 0, 1])))
                (Result [0, 1, 2])
                (Compare (Result [1, 0, 2]) (Result [1, 0, 2])
                   (Compare (Result [1, 2, 0]) (Result [1, 2, 0]) (Result [2, 1, 0])))))
      [[0, 1, 2], [0, 2, 1], [1, 0, 2], [1, 2, 0], [2, 0, 1], [2, 1, 0]]
     = [5 / 8, 3 / 32, 3 / 16, 3 / 64, 1 / 32, 1 / 64]
   \<and> \<not> uniform_shuffle 2
      (Compare (Compare (Result [0, 1, 2]) (Result [0, 1, 2])
                   (Compare (Result [0, 2, 1]) (Result [0, 2, 1]) (Result [2, 0, 1])))
                (Result [0, 1, 2])
                (Compare (Result [1, 0, 2]) (Result [1, 0, 2])
                   (Compare (Result [1, 2, 0]) (Result [1, 2, 0]) (Result [2, 1, 0]))))
      (length [js ''a'', js ''b'', js ''c''])"
proof -
  have r: "rearranges (length [js ''a'', js ''b'', js ''c''])
      (Compare (Compare (Result [0, 1, 2]) (Result [0, 1, 2])
                   (Compare (Result [0, 2, 1]) (Result [0, 2, 1]) (Result [2, 0, 1])))
                (Result [0, 1, 2])
                (Compare (Result [1, 0, 2]) (Result [1, 0, 2])
                   (Compare (Result [1, 2, 0]) (Result [1, 2, 0]) (Result [2, 1, 0]))))"
    by code_simp
  have l: "3 \<le> length [js ''a'', js ''b'', js ''c'']" by simp
  have s: "js_sort_random
      (Compare (Compare (Result [0, 1, 2]) (Result [0, 1, 2])
                   (Compare (Result [0, 2, 1]) (Result [0, 2, 1]) (Result [2, 0, 1])))
                (Result [0, 1, 2])
                (Compare (Result [1, 0, 2]) (Result [1, 0, 2])
                   (Compare (Result [1, 2, 0]) (Result [1, 2, 0]) (Result [2, 1, 0]))))
      (\<lambda>i. if i = 0 then 3 / 4 else 1 / 4) [js ''a'', js ''b'', js ''c'']
     = [js ''b'', js ''a'', js ''c'']"
    by (simp add: js_sort_random_def)
  have p: "map (shuffle_probability 2
      (Compare (Compare (Result [0, 1, 2]) (Result [0, 1, 2])
                   (Compare (Result [0, 2, 1]) (Result [0, 2, 1]) (Result [2, 0, 1])))
                (Result [0, 1, 2])
                (Compare (Result [1, 0, 2]) (Result [1, 0, 2])
                   (Compare (Result [1, 2, 0]) (Result [1, 2, 0]) (Result [2, 1, 0])))))
      [[0, 1, 2], [0, 2, 1], [1, 0, 2], [1, 2, 0], [2, 0, 1], [2, 1, 0]]
     = [5 / 8, 3 / 32, 3 / 16, 3 / 64, 1 / 32, 1 / 64]"
    by code_simp
  show ?thesis
    using shuffle_is_biased[OF r l, of "\<lambda>i. 0" 2 "[0, 1, 2]"] r l s p by blast
qed

text \<open>
  The claim as stated fails for the pools of the question bank, which have 15 questions:
  for no sort and no number of random bits is the shuffle of the mixed pool uniform.
\<close>

theorem shuffle_not_uniform_for_bank:
  "\<not> (\<exists>b t. uniform_shuffle b t (length QUESTIONS_mixed))"
proof -
  have "length QUESTIONS_mixed = 15" by (simp add: QUESTIONS_mixed_def)
  then have "3 \<le> length QUESTIONS_mixed" by simp
  then have "shuffle_probability b t [0..<length QUESTIONS_mixed]
          \<noteq> 1 / of_nat (fact (length QUESTIONS_mixed))" for b t
    by (rule shuffle_probability_not_uniform)
  then show ?thesis unfolding uniform_shuffle_def by blast
qed

subsection \<open>Keys inherited from Object.prototype\<close>

lemma inherited_names:
  "js_get obj (js ''constructor'') = (case map_of obj (js ''constructor'') of Some v \<Rightarrow> Own v | None \<Rightarrow> Inherited)"
  by (simp add: js_get_def Object_prototype_names_def split: option.splits)

text \<open>
  C3 fails on the code. For the request \<open>{jobRole: "Nurse", interviewType: "constructor",
  numQuestions: 3}\<close> the lookup \<open>QUESTIONS[interviewType]\<close> finds the constructor
  inherited from \<open>Object.prototype\<close>, the fallback to the mixed pool is not taken, and
  spreading the value throws: \<open>generateLocalQuestions\<close> returns no questions, whatever
  the engine's sort and the random values.
\<close>

theorem generateLocalQuestions_throws:
  "generateLocalQuestions t rnd (js ''Nurse'') (js ''constructor'') 3 = Inl TypeError"
  by (simp add: generateLocalQuestions_def inherited_names QUESTIONS_def js_eq_iff)

text \<open>
  C1 fails on the code. For the difficulty \<open>"constructor"\<close> the lookup
  \<open>caps[difficulty]\<close> finds the inherited constructor instead of falling back to 90, and
  the score is \<open>NaN\<close> for every answer: it is not in the interval from 30 to 90.
\<close>

theorem evaluateAnswerLocally_NaN:
  "score (evaluateAnswerLocally questionText answerText (js ''constructor'') us) = NaN"
  by (simp add: evaluateAnswerLocally_def cap_and_floor_def inherited_names caps_def js_eq_iff
      split: prod.splits)

text \<open>The same holds for every name inherited from \<open>Object.prototype\<close>.\<close>

lemma own_keys_not_inherited:
  "map_of QUESTIONS key = None" "map_of caps key = None" if "key \<in> set Object_prototype_names"
  using that
  by (auto simp: Object_prototype_names_def QUESTIONS_def caps_def js_eq_iff)

lemma generateLocalQuestions_inherited:
  "interviewType \<in> set Object_prototype_names
   \<Longrightarrow> generateLocalQuestions t rnd jobRole interviewType numQuestions = Inl TypeError"
  by (simp add: generateLocalQuestions_def js_get_def own_keys_not_inherited)

lemma evaluateAnswerLocally_inherited:
  "difficulty' \<in> set Object_prototype_names
   \<Longrightarrow> score (evaluateAnswerLocally questionText answerText difficulty' us) = NaN"
  by (simp add: evaluateAnswerLocally_def cap_and_floor_def js_get_def own_keys_not_inherited
      split: prod.splits)

subsection \<open>The first selected question\<close>

lemma pool_behavioral: "js_get QUESTIONS (js ''behavioral'') = Own QUESTIONS_behavioral"
  by (simp add: js_get_def QUESTIONS_def)

lemma length_behavioral: "length QUESTIONS_behavioral = 15"
  by (simp add: QUESTIONS_behavioral_def)

lemma replace_dollar_ampersand:
  "js_replace_all role_patterns (js ''the '' @ js ''$&'' @ js '' role'')
     (js ''Tell me about yourself and what makes you a good fit for this role.'')
   = js ''Tell me about yourself and what makes you a good fit for the this role role.''"
  by code_simp

lemma hd_behavioral: "QUESTIONS_behavioral ! 0 = js ''Tell me about yourself and what makes you a good fit for this role.''"
  by (simp add: QUESTIONS_behavioral_def)


lemma js_slice0_nonneg: "0 \<le> n \<Longrightarrow> js_slice0 xs n = take (nat n) xs"
proof -
  assume n: "0 \<le> n"
  show ?thesis
  proof (cases "n \<le> int (length xs)")
    case True
    then show ?thesis using n by (simp add: js_slice0_def Let_def min_def)
  next
    case False
    then have "length xs \<le> nat n" by linarith
    then show ?thesis using n False by (simp add: js_slice0_def Let_def min_def)
  qed
qed

lemma first_selected:
  assumes "rearranges (length pool) t" and "pool \<noteq> []" and "0 < n"
  shows "\<exists>others. js_slice0 (js_sort_random t rnd pool) n = pool ! hd (run_sort t rnd 0) # others"
proof -
  have m: "mset (run_sort t rnd 0) = mset [0..<length pool]"
    using assms(1) by (rule run_sort_rearranges)
  have "length (run_sort t rnd 0) = length [0..<length pool]"
    using m by (rule mset_eq_length)
  then have "run_sort t rnd 0 \<noteq> []" using assms(2) by auto
  then obtain i p where p: "run_sort t rnd 0 = i # p" by (cases "run_sort t rnd 0") auto
  obtain k where k: "nat n = Suc k" using assms(3) by (cases "nat n") auto
  have "js_slice0 (js_sort_random t rnd pool) n = take (nat n) (js_sort_random t rnd pool)"
    using assms(3) by (intro js_slice0_nonneg) simp
  also have "\<dots> = pool ! i # take k (map (\<lambda>j. pool ! j) p)"
    by (simp add: js_sort_random_def p k)
  finally show ?thesis by (simp add: p)
qed

text \<open>
  C5 fails on the code. The second argument of \<open>replace\<close> is a replacement template, so
  a \<open>jobRole\<close> with a dollar pattern is not inserted as it is. For \<open>jobRole = "$&"\<close>
  and the behavioral pool, whenever the shuffle puts the first question of the bank first,
  the first result reads "... a good fit for the this role role." and not
  "... a good fit for the $& role.".
\<close>

theorem job_role_pattern_expanded:
  assumes "rearranges 15 t" and "hd (run_sort t rnd 0) = 0" and "0 < n"
  shows "\<exists>others. generateLocalQuestions t rnd (js ''$&'') (js ''behavioral'') n
           = Inr (js ''Tell me about yourself and what makes you a good fit for the this role role.''
                  # others)"
proof -
  have "rearranges (length QUESTIONS_behavioral) t" using assms(1) by (simp add: length_behavioral)
  moreover have "QUESTIONS_behavioral \<noteq> []" using length_behavioral by auto
  ultimately obtain others where
    "js_slice0 (js_sort_random t rnd QUESTIONS_behavioral) n
       = QUESTIONS_behavioral ! hd (run_sort t rnd 0) # others"
    using first_selected[of QUESTIONS_behavioral t n rnd] assms(3) by blast
  then have sel: "js_slice0 (js_sort_random t rnd QUESTIONS_behavioral) n
       = js ''Tell me about yourself and what makes you a good fit for this role.'' # others"
    by (simp add: assms(2) hd_behavioral)
  show ?thesis
    unfolding generateLocalQuestions_def pool_behavioral
    by (simp add: Let_def sel replace_dollar_ampersand)
qed

theorem job_role_pattern_expanded_witness:
  "rearranges 15 (Compare (Result [0, 1, 2, 3, 4, 5, 6, 7, 8, 9, 10, 11, 12, 13, 14])
                     (Result [0, 1, 2, 3, 4, 5, 6, 7, 8, 9, 10, 11, 12, 13, 14])
                     (Result [14, 13, 12, 11, 10, 9, 8, 7, 6, 5, 4, 3, 2, 1, 0]))
   \<and> hd (run_sort (Compare (Result [0, 1, 2, 3, 4, 5, 6, 7, 8, 9, 10, 11, 12, 13, 14])
                     (Result [0, 1, 2, 3, 4, 5, 6, 7, 8, 9, 10, 11, 12, 13, 14])
                     (Result [14, 13, 12, 11, 10, 9, 8, 7, 6, 5, 4, 3, 2, 1, 0]))
            (\<lambda>i. 1 / 4) 0) = 0
   \<and> generateLocalQuestions (Compare (Result [0, 1, 2, 3, 4, 5, 6, 7, 8, 9, 10, 11, 12, 13, 14])
                     (Result [0, 1, 2, 3, 4, 5, 6, 7, 8, 9, 10, 11, 12, 13, 14])
                     (Result [14, 13, 12, 11, 10, 9, 8, 7, 6, 5, 4, 3, 2, 1, 0]))
        (\<lambda>i. 1 / 4) (js ''$&'') (js ''behavioral'') 2
      = Inr [js ''Tell me about yourself and what makes you a good fit for the this role role.'',
             js ''Describe a time when you had to deal with a difficult coworker or team member. How did you handle it?'']"
proof -
  have r: "rearranges 15 (Compare (Result [0, 1, 2, 3, 4, 5, 6, 7, 8, 9, 10, 11, 12, 13, 14])
                     (Result [0, 1, 2, 3, 4, 5, 6, 7, 8, 9, 10, 11, 12, 13, 14])
                     (Result [14, 13, 12, 11, 10, 9, 8, 7, 6, 5, 4, 3, 2, 1, 0]))"
    by code_simp
  have h: "hd (run_sort (Compare (Result [0, 1, 2, 3, 4, 5, 6, 7, 8, 9, 10, 11, 12, 13, 14])
                     (Result [0, 1, 2, 3, 4, 5, 6, 7, 8, 9, 10, 11, 12, 13, 14])
                     (Result [14, 13, 12, 11, 10, 9, 8, 7, 6, 5, 4, 3, 2, 1, 0]))
            (\<lambda>i. 1 / 4) 0) = 0"
    by simp
  have "js_slice0 (js_sort_random (Compare (Result [0, 1, 2, 3, 4, 5, 6, 7, 8, 9, 10, 11, 12, 13, 14])
                     (Result [0, 1, 2, 3, 4, 5, 6, 7, 8, 9, 10, 11, 12, 13, 14])
                     (Result [14, 13, 12, 11, 10, 9, 8, 7, 6, 5, 4, 3, 2, 1, 0]))
        (\<lambda>i. 1 / 4) QUESTIONS_behavioral) 2
      = [js ''Tell me about yourself and what makes you a good fit for this role.'',
         js ''Describe a time when you had to deal with a difficult coworker or team member. How did you handle it?'']"
    by (simp add: js_slice0_nonneg js_sort_random_def QUESTIONS_behavioral_def)
  then have g: "generateLocalQuestions (Compare (Result [0, 1, 2, 3, 4, 5, 6, 7, 8, 9, 10, 11, 12, 13, 14])
                     (Result [0, 1, 2, 3, 4, 5, 6, 7, 8, 9, 10, 11, 12, 13, 14])
                     (Result [14, 13, 12, 11, 10, 9, 8, 7, 6, 5, 4, 3, 2, 1, 0]))
        (\<lambda>i. 1 / 4) (js ''$&'') (js ''behavioral'') 2
      = Inr [js ''Tell me about yourself and what makes you a good fit for the this role role.'',
             js ''Describe a time when you had to deal with a difficult coworker or team member. How did you handle it?'']"
    unfolding generateLocalQuestions_def pool_behavioral
    by (simp add: Let_def replace_dollar_ampersand)
  have "(2::int) > 0" by simp
  from job_role_pattern_expanded[OF r h this] r h g show ?thesis by blast
qed

subsection \<open>The score of evaluateAnswerLocally and the reference definition\<close>

lemma split_each_nonempty: "split_each sep s \<noteq> []"
  by (induction s) (auto split: list.splits)

lemma split_each_append:
  "sep c \<Longrightarrow> split_each sep (xs @ c # ys) = split_each sep xs @ split_each sep ys"
proof (induction xs)
  case Nil
  then show ?case by simp
next
  case (Cons x xs)
  obtain seg segs where s: "split_each sep xs = seg # segs"
    using split_each_nonempty[of sep xs] by (cases "split_each sep xs") auto
  show ?case using Cons s by simp
qed

lemma split_each_no_sep: "(\<forall>c \<in> set s. \<not> sep c) \<Longrightarrow> split_each sep s = [s]"
  by (induction s) auto

lemma split_each_unfold:
  assumes "dropWhile (\<lambda>c. \<not> sep c) s = c # rest"
  shows "split_each sep s = takeWhile (\<lambda>c. \<not> sep c) s # split_each sep rest"
proof -
  have c: "sep c" using hd_dropWhile[of "\<lambda>c. \<not> sep c" s] assms by simp
  have "s = takeWhile (\<lambda>c. \<not> sep c) s @ c # rest"
    using takeWhile_dropWhile_id[of "\<lambda>c. \<not> sep c" s] assms by simp
  then have "split_each sep s = split_each sep (takeWhile (\<lambda>c. \<not> sep c) s @ c # rest)" by simp
  also have "\<dots> = split_each sep (takeWhile (\<lambda>c. \<not> sep c) s) @ split_each sep rest"
    using c by (rule split_each_append)
  also have "split_each sep (takeWhile (\<lambda>c. \<not> sep c) s) = [takeWhile (\<lambda>c. \<not> sep c) s]"
    by (rule split_each_no_sep) (auto dest: set_takeWhileD)
  finally show ?thesis by simp
qed

lemma filter_split_each_leading:
  "\<not> P [] \<Longrightarrow> filter P (split_each sep (dropWhile sep s)) = filter P (split_each sep s)"
  by (induction s) auto

lemma filter_split_each_trailing:
  "\<not> P [] \<Longrightarrow> filter P (split_each sep (rev (dropWhile sep (rev s)))) = filter P (split_each sep s)"
proof (induction s rule: rev_induct)
  case Nil
  then show ?case by simp
next
  case (snoc c s)
  show ?case
  proof (cases "sep c")
    case True
    then have "split_each sep (s @ [c]) = split_each sep s @ [[]]"
      using split_each_append[of sep c s "[]"] by simp
    then show ?thesis using True snoc by simp
  next
    case False
    then show ?thesis by simp
  qed
qed

lemma filter_split_plus:
  "\<not> P [] \<Longrightarrow> filter P (split_plus sep s) = filter P (split_each sep s)"
proof (induction sep s rule: split_plus.induct)
  case (1 sep s)
  show ?case
  proof (cases "dropWhile (\<lambda>c. \<not> sep c) s")
    case Nil
    then have "\<forall>c \<in> set s. \<not> sep c" by (simp add: dropWhile_eq_Nil_conv)
    then have "split_each sep s = [s]" by (rule split_each_no_sep)
    moreover have "split_plus sep s = [s]" by (subst split_plus.simps) (simp only: Nil list.case)
    ultimately show ?thesis by simp
  next
    case (Cons c rest)
    have "filter P (split_plus sep (dropWhile sep rest)) = filter P (split_each sep (dropWhile sep rest))"
      using "1.IH"[OF Cons] "1.prems" by simp
    also have "\<dots> = filter P (split_each sep rest)"
      using "1.prems" by (rule filter_split_each_leading)
    finally have ih: "filter P (split_plus sep (dropWhile sep rest)) = filter P (split_each sep rest)" .
    have "split_plus sep s = takeWhile (\<lambda>c. \<not> sep c) s # split_plus sep (dropWhile sep rest)"
      by (subst split_plus.simps) (simp only: Cons list.case)
    moreover have "split_each sep s = takeWhile (\<lambda>c. \<not> sep c) s # split_each sep rest"
      using Cons by (rule split_each_unfold)
    ultimately show ?thesis using ih by simp
  qed
qed


lemma split_plus_no_empty_segment:
  "s \<noteq> [] \<Longrightarrow> \<not> sep (hd s) \<Longrightarrow> \<not> sep (last s) \<Longrightarrow> [] \<notin> set (split_plus sep s)"
proof (induction sep s rule: split_plus.induct)
  case (1 sep s)
  show ?case
  proof (cases "dropWhile (\<lambda>c. \<not> sep c) s")
    case Nil
    have "split_plus sep s = [s]" by (subst split_plus.simps) (simp only: Nil list.case)
    then show ?thesis using "1.prems"(1) by simp
  next
    case (Cons c rest)
    have c: "sep c" using hd_dropWhile[of "\<lambda>c. \<not> sep c" s] Cons by simp
    have s: "s = takeWhile (\<lambda>c. \<not> sep c) s @ c # rest"
      using takeWhile_dropWhile_id[of "\<lambda>c. \<not> sep c" s] Cons by simp
    have tw: "takeWhile (\<lambda>c. \<not> sep c) s \<noteq> []"
      using "1.prems"(1,2) by (cases s) auto
    have "last s = last (c # rest)" by (subst s) simp
    then have l: "\<not> sep (last (c # rest))" using "1.prems"(3) by simp
    have r: "dropWhile sep rest \<noteq> []"
    proof
      assume "dropWhile sep rest = []"
      then have "\<forall>x \<in> set rest. sep x" by (simp add: dropWhile_eq_Nil_conv)
      then have "\<forall>x \<in> set (c # rest). sep x" using c by simp
      moreover have "last (c # rest) \<in> set (c # rest)" by (rule last_in_set) simp
      ultimately show False using l by blast
    qed
    have h: "\<not> sep (hd (dropWhile sep rest))" using hd_dropWhile[OF r] .
    have "rest = takeWhile sep rest @ dropWhile sep rest" by simp
    then have "last rest = last (dropWhile sep rest)" using r by (metis last_appendR)
    moreover have "rest \<noteq> []" using r by auto
    ultimately have "\<not> sep (last (dropWhile sep rest))" using l by simp
    then have "[] \<notin> set (split_plus sep (dropWhile sep rest))"
      using "1.IH"[OF Cons r h] by simp
    moreover have "split_plus sep s = takeWhile (\<lambda>c. \<not> sep c) s # split_plus sep (dropWhile sep rest)"
      by (subst split_plus.simps) (simp only: Cons list.case)
    ultimately show ?thesis using tw by auto
  qed
qed

lemma js_trim_ends:
  assumes "js_trim s \<noteq> []"
  shows "\<not> is_space (hd (js_trim s)) \<and> \<not> is_space (last (js_trim s))"
proof -
  define u where "u = dropWhile is_space s"
  define v where "v = dropWhile is_space (rev u)"
  have t: "js_trim s = rev v" by (simp add: js_trim_def u_def v_def)
  have v: "v \<noteq> []" using assms t by simp
  then have u: "u \<noteq> []" by (auto simp: v_def)
  have "\<not> is_space (hd v)" unfolding v_def using v hd_dropWhile[of is_space "rev u"] by (simp add: v_def)
  then have l: "\<not> is_space (last (js_trim s))" using v by (simp add: t last_rev)
  have "rev u = takeWhile is_space (rev u) @ v" by (simp add: v_def)
  then have "last (rev u) = last v" using v by (metis last_appendR)
  then have "hd u = last v" using u by (simp add: last_rev)
  moreover have "\<not> is_space (hd u)" unfolding u_def using u hd_dropWhile[of is_space s] by (simp add: u_def)
  ultimately have "\<not> is_space (hd (js_trim s))" using v by (simp add: t hd_rev)
  then show ?thesis using l by simp
qed

lemma filter_split_each_trim:
  "\<not> P [] \<Longrightarrow> filter P (split_each is_space (js_trim s)) = filter P (split_each is_space s)"
  unfolding js_trim_def by (simp add: filter_split_each_trailing filter_split_each_leading)

lemma word_count_trimmed:
  assumes "js_trim s \<noteq> []"
  shows "length (split_plus is_space (js_trim s)) = word_count s"
proof -
  have "[] \<notin> set (split_plus is_space (js_trim s))"
    using assms js_trim_ends[OF assms] by (intro split_plus_no_empty_segment) simp_all
  then have "filter (\<lambda>w. w \<noteq> []) (split_plus is_space (js_trim s)) = split_plus is_space (js_trim s)"
    by (intro filter_True) auto
  then have "length (split_plus is_space (js_trim s))
      = length (filter (\<lambda>w. w \<noteq> []) (split_plus is_space (js_trim s)))" by simp
  also have "\<dots> = length (filter (\<lambda>w. w \<noteq> []) (split_each is_space (js_trim s)))"
    by (simp add: filter_split_plus)
  also have "\<dots> = word_count s"
    by (simp add: filter_split_each_trim word_count_def)
  finally show ?thesis .
qed

lemma word_count_blank:
  assumes "js_trim s = []"
  shows "length (split_plus is_space (js_trim s)) = 1 \<and> word_count s = 0"
proof -
  have "filter (\<lambda>w. w \<noteq> []) (split_each is_space (js_trim s))
      = filter (\<lambda>w. w \<noteq> []) (split_each is_space s)"
    by (rule filter_split_each_trim) simp
  then have "word_count s = 0" by (simp add: assms word_count_def)
  moreover have "split_plus is_space [] = [[]]" by (subst split_plus.simps) simp
  ultimately show ?thesis by (simp add: assms)
qed

lemma word_threshold:
  "2 \<le> k \<Longrightarrow> k \<le> length (split_plus is_space (js_trim s)) \<longleftrightarrow> k \<le> word_count s"
  using word_count_trimmed[of s] word_count_blank[of s] by (cases "js_trim s = []") auto

lemma sentence_count_eq:
  "length (filter (\<lambda>seg. js_trim seg \<noteq> []) (split_plus is_sentence_end s)) = sentence_count s"
  by (simp add: filter_split_plus sentence_count_def js_trim_def)

lemma matches_at_prefix: "matches_at p s \<longleftrightarrow> prefix (map canon p) (map canon s)"
  by (induction p s rule: matches_at.induct) auto

lemma first_match_iff: "(\<exists>n. first_match alts s = Some n) \<longleftrightarrow> (\<exists>p \<in> set alts. matches_at p s)"
  by (induction alts) auto

lemma regex_test_marker: "regex_test alts s \<longleftrightarrow> has_marker alts s"
proof (induction s)
  case Nil
  show ?case by (auto simp: has_marker_def first_match_iff matches_at_prefix list_ex_iff)
next
  case (Cons c cs)
  have "regex_test alts (c # cs)
      \<longleftrightarrow> (\<exists>p \<in> set alts. prefix (map canon p) (map canon (c # cs))) \<or> has_marker alts cs"
    using Cons by (simp add: first_match_iff matches_at_prefix)
  also have "\<dots> \<longleftrightarrow> has_marker alts (c # cs)"
    by (auto simp: has_marker_def list_ex_iff sublist_Cons_right)
  finally show ?case .
qed


lemma raw_score_reference: "raw_score answerText = reference_total answerText"
  by (simp add: raw_score_def reference_total_def Let_def word_threshold sentence_count_eq
      regex_test_marker)

lemma cap_and_floor_reference:
  assumes "d \<notin> set Object_prototype_names"
  shows "cap_and_floor x d = Num (max 30 (min (difficulty_cap d) x))"
proof -
  have "js_get caps d = (if d = js ''Easy'' then Own 95 else if d = js ''Medium'' then Own 90
      else if d = js ''Hard'' then Own 85 else if d = js ''Expert'' then Own 80 else Absent)"
    using assms by (simp add: js_get_def caps_def)
  then show ?thesis
    by (simp add: cap_and_floor_def difficulty_cap_def max.commute min.commute)
qed

text \<open>
  For every difficulty that is not the name of a property inherited from
  \<open>Object.prototype\<close> (in particular for the four difficulties), every question, every
  answer and every choice of phrases, the score of \<open>evaluateAnswerLocally\<close> is the
  reference score; it lies between 30 and the ceiling of the difficulty, and two calls with
  the same answer and difficulty give the same score.
\<close>

theorem evaluateAnswerLocally_score_reference:
  assumes "difficulty' \<notin> set Object_prototype_names"
  shows "score (evaluateAnswerLocally questionText answerText difficulty' us)
           = Num (reference_score answerText difficulty')
       \<and> 30 \<le> reference_score answerText difficulty'
       \<and> reference_score answerText difficulty' \<le> difficulty_cap difficulty'
       \<and> score (evaluateAnswerLocally questionText2 answerText difficulty' us2)
           = score (evaluateAnswerLocally questionText answerText difficulty' us)"
proof -
  have s: "score (evaluateAnswerLocally q answerText difficulty' u)
        = Num (reference_score answerText difficulty')" for q u
    using assms
    by (cases u) (simp add: evaluateAnswerLocally_def Let_def raw_score_reference
        cap_and_floor_reference reference_score_def)
  have "30 \<le> difficulty_cap difficulty'" by (simp add: difficulty_cap_def)
  then have "30 \<le> reference_score answerText difficulty'
      \<and> reference_score answerText difficulty' \<le> difficulty_cap difficulty'"
    by (simp add: reference_score_def)
  then show ?thesis using s by simp
qed



lemma raw_score_scenario: "raw_score (js ''I improved throughput by 30% using caching, for example reducing latency.'') = 60"
  by (simp add: raw_score_def Let_def split_plus.simps js_def is_sentence_end_def js_trim_def is_space_def
      is_digit_def specifics_patterns_def structure_patterns_def canon_def)

theorem evaluateAnswerLocally_score_reference_witness:
  "js ''Medium'' \<notin> set Object_prototype_names
   \<and> score (evaluateAnswerLocally (js ''Describe how caching works and when you would implement it.'')
        (js ''I improved throughput by 30% using caching, for example reducing latency.'')
        (js ''Medium'') (0, 1 / 2, 9 / 10)) = Num 60
   \<and> reference_score (js ''I improved throughput by 30% using caching, for example reducing latency.'')
        (js ''Medium'') = 60"
proof -
  have m: "js ''Medium'' \<notin> set Object_prototype_names"
    by (simp add: Object_prototype_names_def js_eq_iff)
  have e: "score (evaluateAnswerLocally (js ''Describe how caching works and when you would implement it.'')
        (js ''I improved throughput by 30% using caching, for example reducing latency.'')
        (js ''Medium'') (0, 1 / 2, 9 / 10)) = Num 60"
    by (simp add: evaluateAnswerLocally_def Let_def raw_score_scenario cap_and_floor_def js_get_def caps_def js_eq_iff)
  show ?thesis
    using evaluateAnswerLocally_score_reference[OF m,
        of "js ''Describe how caching works and when you would implement it.''"
           "js ''I improved throughput by 30% using caching, for example reducing latency.''"
           "(0, 1 / 2, 9 / 10)"] m e
    by simp
qed
subsection \<open>The selection of generateLocalQuestions\<close>

lemma get_substitution_literal:
  "c \<noteq> 0x24 \<Longrightarrow> get_substitution (c # t) m pre post = c # get_substitution t m pre post"
  by (cases t) simp_all

lemma get_substitution_no_dollar:
  "0x24 \<notin> set t \<Longrightarrow> get_substitution t m pre post = t"
  by (induction t) (simp_all add: get_substitution_literal)

lemma first_match_Nil: "[] \<notin> set alts \<Longrightarrow> first_match alts [] = None"
proof (induction alts)
  case Nil
  show ?case by simp
next
  case (Cons p ps)
  then have "p \<noteq> []" by auto
  then have "\<not> matches_at p []" by (cases p) simp_all
  then show ?case using Cons by simp
qed

lemma first_match_positive: "[] \<notin> set alts \<Longrightarrow> first_match alts s \<noteq> Some 0"
  by (induction alts) auto

lemma replace_from_literal:
  assumes "0x24 \<notin> set new" and "[] \<notin> set alts"
  shows "replace_from alts new skip pre s = replace_occurrences alts new skip s"
proof (induction s arbitrary: skip pre)
  case Nil
  show ?case using first_match_Nil[OF assms(2)] by (simp split: nat.splits)
next
  case (Cons c cs)
  show ?case
  proof (cases skip)
    case (Suc k)
    then show ?thesis using Cons by simp
  next
    case 0
    show ?thesis
    proof (cases "first_match alts (c # cs)")
      case None
      then show ?thesis using 0 Cons by simp
    next
      case (Some n)
      then obtain m where n: "n = Suc m"
        using first_match_positive[OF assms(2), of "c # cs"] by (cases n) auto
      show ?thesis
        using 0 Some n Cons get_substitution_no_dollar[OF assms(1)] by simp
    qed
  qed
qed

lemma replace_unchanged:
  "\<not> regex_test alts s \<Longrightarrow> replace_from alts template 0 pre s = s"
  by (induction s arbitrary: pre) auto

lemma js_replace_all_unchanged:
  "\<not> has_marker alts s \<Longrightarrow> js_replace_all alts template s = s"
  by (simp add: js_replace_all_def replace_unchanged regex_test_marker)

lemma no_match_technical: "\<forall>q \<in> set QUESTIONS_technical. \<not> has_marker role_patterns q"
  by (simp add: has_marker_def QUESTIONS_technical_def role_patterns_def js_def canon_def
      sublist_Cons_right)

lemma no_match_situational: "\<forall>q \<in> set QUESTIONS_situational. \<not> has_marker role_patterns q"
  by (simp add: has_marker_def QUESTIONS_situational_def role_patterns_def js_def canon_def
      sublist_Cons_right)

lemma no_match_behavioral: "\<forall>q \<in> set (tl QUESTIONS_behavioral). \<not> has_marker role_patterns q"
  by (simp add: has_marker_def QUESTIONS_behavioral_def role_patterns_def js_def canon_def
      sublist_Cons_right)

lemma no_match_mixed: "\<forall>q \<in> set (tl QUESTIONS_mixed). \<not> has_marker role_patterns q"
  by (simp add: has_marker_def QUESTIONS_mixed_def role_patterns_def js_def canon_def
      sublist_Cons_right)

lemma distinct_pools:
  "distinct QUESTIONS_behavioral" "distinct QUESTIONS_technical"
  "distinct QUESTIONS_situational" "distinct QUESTIONS_mixed"
  by (simp_all add: QUESTIONS_behavioral_def QUESTIONS_technical_def QUESTIONS_situational_def
      QUESTIONS_mixed_def js_eq_iff)

lemma length_pools:
  "length QUESTIONS_behavioral = 15" "length QUESTIONS_technical = 15"
  "length QUESTIONS_situational = 15" "length QUESTIONS_mixed = 15"
  by (simp_all add: QUESTIONS_behavioral_def QUESTIONS_technical_def QUESTIONS_situational_def
      QUESTIONS_mixed_def)

lemma opening_behavioral:
  "take 15 (js_replace_all role_patterns template (hd QUESTIONS_behavioral)) = js ''Tell me about y''"
  by (simp add: QUESTIONS_behavioral_def js_replace_all_def role_patterns_def js_def canon_def)

lemma opening_mixed:
  "take 15 (js_replace_all role_patterns template (hd QUESTIONS_mixed)) = js ''Tell me about y''"
  by (simp add: QUESTIONS_mixed_def js_replace_all_def role_patterns_def js_def canon_def)

lemma other_openings:
  "\<forall>q \<in> set (tl QUESTIONS_behavioral). take 15 q \<noteq> js ''Tell me about y''"
  "\<forall>q \<in> set (tl QUESTIONS_mixed). take 15 q \<noteq> js ''Tell me about y''"
  by (simp_all add: QUESTIONS_behavioral_def QUESTIONS_mixed_def js_def)

lemma personalized_distinct_tail:
  assumes "pool \<noteq> []"
    and "\<forall>q \<in> set (tl pool). \<not> has_marker role_patterns q"
    and "take 15 (js_replace_all role_patterns template (hd pool)) = k"
    and "\<forall>q \<in> set (tl pool). take 15 q \<noteq> k"
    and "q \<in> set pool" and "q' \<in> set pool" and "q' \<noteq> q"
  shows "js_replace_all role_patterns template q \<noteq> q'"
proof (cases "q \<in> set (tl pool)")
  case True
  then have "js_replace_all role_patterns template q = q"
    using assms(2) by (intro js_replace_all_unchanged) blast
  then show ?thesis using assms(7) by simp
next
  case False
  have p: "pool = hd pool # tl pool" using assms(1) by simp
  then have "set pool = insert (hd pool) (set (tl pool))" by (metis list.simps(15))
  then have q: "q = hd pool" and "q' \<in> set (tl pool)" using False assms(5,6,7) by auto
  then have "take 15 q' \<noteq> k" using assms(4) by blast
  then show ?thesis using assms(3) q by auto
qed

lemma personalized_distinct:
  assumes "q \<in> set (selected_pool interviewType)" and "q' \<in> set (selected_pool interviewType)"
    and "q' \<noteq> q"
  shows "js_replace_all role_patterns template q \<noteq> q'"
proof -
  consider (b) "selected_pool interviewType = QUESTIONS_behavioral"
    | (t) "selected_pool interviewType = QUESTIONS_technical"
    | (s) "selected_pool interviewType = QUESTIONS_situational"
    | (m) "selected_pool interviewType = QUESTIONS_mixed"
    by (cases "interviewType = js ''behavioral''"; cases "interviewType = js ''technical''";
        cases "interviewType = js ''situational''")
      (simp_all add: selected_pool_def)
  then show ?thesis
  proof cases
    case b
    have "QUESTIONS_behavioral \<noteq> []" using length_pools(1) by auto
    then show ?thesis
      using personalized_distinct_tail[OF _ no_match_behavioral opening_behavioral other_openings(1)]
        assms b by simp
  next
    case t
    then have "js_replace_all role_patterns template q = q"
      using assms(1) no_match_technical by (intro js_replace_all_unchanged) simp
    then show ?thesis using assms(3) by simp
  next
    case s
    then have "js_replace_all role_patterns template q = q"
      using assms(1) no_match_situational by (intro js_replace_all_unchanged) simp
    then show ?thesis using assms(3) by simp
  next
    case m
    have "QUESTIONS_mixed \<noteq> []" using length_pools(4) by auto
    then show ?thesis
      using personalized_distinct_tail[OF _ no_match_mixed opening_mixed other_openings(2)]
        assms m by simp
  qed
qed

lemma selected_pool_facts:
  "length (selected_pool interviewType) = 15" "distinct (selected_pool interviewType)"
  by (simp_all add: selected_pool_def length_pools distinct_pools)

lemma pool_lookup:
  assumes "interviewType \<notin> set Object_prototype_names"
  shows "(case js_get QUESTIONS interviewType of
            Own pool \<Rightarrow> Some pool
          | Inherited \<Rightarrow> None
          | Absent \<Rightarrow> Some QUESTIONS_mixed) = Some (selected_pool interviewType)"
  using assms by (simp add: js_get_def QUESTIONS_def selected_pool_def)

text \<open>
  For an interview type that is not the name of a property inherited from
  \<open>Object.prototype\<close>, a sort that rearranges and a positive number of questions,
  \<open>generateLocalQuestions\<close> returns the first \<open>min(numQuestions, 15)\<close> questions of the
  shuffled pool of the type (the mixed pool for an unrecognized type): at least one, all
  different, all but the first exactly as in the bank, and the first with the role
  patterns replaced; for a job role without a dollar sign the replacement text is
  \<open>the {jobRole} role\<close> as it is.
\<close>

theorem generateLocalQuestions_selection:
  assumes "interviewType \<notin> set Object_prototype_names" and "rearranges 15 t" and "0 < n"
  shows "\<exists>first others.
      js_slice0 (js_sort_random t rnd (selected_pool interviewType)) n = first # others
    \<and> generateLocalQuestions t rnd jobRole interviewType n
        = Inr (js_replace_all role_patterns (js ''the '' @ jobRole @ js '' role'') first # others)
    \<and> length (first # others) = min (nat n) 15
    \<and> first \<in> set (selected_pool interviewType)
    \<and> set others \<subseteq> set (selected_pool interviewType)
    \<and> distinct (js_replace_all role_patterns (js ''the '' @ jobRole @ js '' role'') first # others)
    \<and> (0x24 \<notin> set jobRole \<longrightarrow>
          js_replace_all role_patterns (js ''the '' @ jobRole @ js '' role'') first
            = replace_occurrences role_patterns (js ''the '' @ jobRole @ js '' role'') 0 first)"
proof -
  define pool where "pool = selected_pool interviewType"
  define sh where "sh = js_sort_random t rnd pool"
  define sel where "sel = js_slice0 sh n"
  define template where "template = js ''the '' @ jobRole @ js '' role''"
  have len: "length pool = 15" and dist: "distinct pool"
    by (simp_all add: pool_def selected_pool_facts)
  have "rearranges (length pool) t" using assms(2) len by simp
  then have ms: "mset sh = mset pool" unfolding sh_def by (rule js_sort_random_mset)
  have lsh: "length sh = 15" using ms len by (metis mset_eq_length)
  have dsh: "distinct sh" using ms dist by (metis mset_eq_imp_distinct_iff)
  have ssh: "set sh = set pool" using ms by (rule mset_eq_setD)
  have sel: "sel = take (nat n) sh"
    unfolding sel_def using assms(3) by (intro js_slice0_nonneg) simp
  have lsel: "length sel = min (nat n) 15" using sel lsh by simp
  have "sel \<noteq> []" using lsel assms(3) by auto
  then obtain first others where fo: "sel = first # others" by (cases sel) auto
  have dsel: "distinct sel" using dsh sel by simp
  have subset: "set sel \<subseteq> set pool" using sel ssh by (metis set_take_subset)
  have f: "first \<in> set pool" and os: "set others \<subseteq> set pool" using subset fo by auto
  have "js_replace_all role_patterns template first \<notin> set others"
  proof
    assume a: "js_replace_all role_patterns template first \<in> set others"
    then have "js_replace_all role_patterns template first \<in> set pool" using os by blast
    moreover have "js_replace_all role_patterns template first \<noteq> first"
      using a dsel fo by auto
    ultimately show False
      using personalized_distinct[of first interviewType
          "js_replace_all role_patterns template first" template] f
      by (simp add: pool_def)
  qed
  then have d: "distinct (js_replace_all role_patterns template first # others)"
    using dsel fo by simp
  have g: "generateLocalQuestions t rnd jobRole interviewType n
        = Inr (js_replace_all role_patterns template first # others)"
    unfolding generateLocalQuestions_def pool_lookup[OF assms(1)]
    using fo by (simp add: Let_def sel_def sh_def pool_def template_def)
  have lit: "0x24 \<notin> set jobRole \<longrightarrow>
          js_replace_all role_patterns template first
            = replace_occurrences role_patterns template 0 first"
  proof
    assume "0x24 \<notin> set jobRole"
    then have "0x24 \<notin> set template" by (simp add: template_def js_def)
    moreover have "[] \<notin> set role_patterns" by (simp add: role_patterns_def js_def)
    ultimately show "js_replace_all role_patterns template first
            = replace_occurrences role_patterns template 0 first"
      unfolding js_replace_all_def by (rule replace_from_literal)
  qed
  show ?thesis
    using fo g lsel f os d lit
    unfolding sel_def sh_def pool_def template_def
    by (intro exI[of _ first] exI[of _ others]) simp
qed

theorem generateLocalQuestions_selection_witness:
  "js ''astrology'' \<notin> set Object_prototype_names
   \<and> rearranges 15 (Compare (Result [0, 1, 2, 3, 4, 5, 6, 7, 8, 9, 10, 11, 12, 13, 14])
                     (Result [0, 1, 2, 3, 4, 5, 6, 7, 8, 9, 10, 11, 12, 13, 14])
                     (Result [14, 13, 12, 11, 10, 9, 8, 7, 6, 5, 4, 3, 2, 1, 0]))
   \<and> generateLocalQuestions
        (Compare (Result [0, 1, 2, 3, 4, 5, 6, 7, 8, 9, 10, 11, 12, 13, 14])
                     (Result [0, 1, 2, 3, 4, 5, 6, 7, 8, 9, 10, 11, 12, 13, 14])
                     (Result [14, 13, 12, 11, 10, 9, 8, 7, 6, 5, 4, 3, 2, 1, 0]))
        (\<lambda>i. 1 / 4) (js ''Nurse'') (js ''astrology'') 3
      = Inr [js ''Tell me about yourself and the Nurse role in the Nurse role.'',
             js ''What's a technical challenge you recently solved? Walk me through your approach.'',
             js ''How do you stay current with industry trends and new technologies?'']"
proof -
  have a: "js ''astrology'' \<notin> set Object_prototype_names"
    by (simp add: Object_prototype_names_def js_eq_iff)
  have r: "rearranges 15 (Compare (Result [0, 1, 2, 3, 4, 5, 6, 7, 8, 9, 10, 11, 12, 13, 14])
                     (Result [0, 1, 2, 3, 4, 5, 6, 7, 8, 9, 10, 11, 12, 13, 14])
                     (Result [14, 13, 12, 11, 10, 9, 8, 7, 6, 5, 4, 3, 2, 1, 0]))"
    by code_simp
  have p: "selected_pool (js ''astrology'') = QUESTIONS_mixed"
    by (simp add: selected_pool_def js_eq_iff)
  have s: "js_slice0 (js_sort_random
        (Compare (Result [0, 1, 2, 3, 4, 5, 6, 7, 8, 9, 10, 11, 12, 13, 14])
                     (Result [0, 1, 2, 3, 4, 5, 6, 7, 8, 9, 10, 11, 12, 13, 14])
                     (Result [14, 13, 12, 11, 10, 9, 8, 7, 6, 5, 4, 3, 2, 1, 0]))
        (\<lambda>i. 1 / 4) QUESTIONS_mixed) 3
      = [js ''Tell me about yourself and your experience in this field.'',
         js ''What's a technical challenge you recently solved? Walk me through your approach.'',
         js ''How do you stay current with industry trends and new technologies?'']"
    by (simp add: js_slice0_nonneg js_sort_random_def QUESTIONS_mixed_def)
  have e: "js_replace_all role_patterns (js ''the '' @ js ''Nurse'' @ js '' role'')
        (js ''Tell me about yourself and your experience in this field.'')
      = js ''Tell me about yourself and the Nurse role in the Nurse role.''"
    by (simp add: js_replace_all_def role_patterns_def js_def canon_def)
  have "(0::int) < 3" by simp
  from generateLocalQuestions_selection[OF a r this, of "\<lambda>i. 1 / 4" "js ''Nurse''"]
  obtain first others where
    "js_slice0 (js_sort_random
        (Compare (Result [0, 1, 2, 3, 4, 5, 6, 7, 8, 9, 10, 11, 12, 13, 14])
                     (Result [0, 1, 2, 3, 4, 5, 6, 7, 8, 9, 10, 11, 12, 13, 14])
                     (Result [14, 13, 12, 11, 10, 9, 8, 7, 6, 5, 4, 3, 2, 1, 0]))
        (\<lambda>i. 1 / 4) (selected_pool (js ''astrology''))) 3 = first # others"
    and g: "generateLocalQuestions
        (Compare (Result [0, 1, 2, 3, 4, 5, 6, 7, 8, 9, 10, 11, 12, 13, 14])
                     (Result [0, 1, 2, 3, 4, 5, 6, 7, 8, 9, 10, 11, 12, 13, 14])
                     (Result [14, 13, 12, 11, 10, 9, 8, 7, 6, 5, 4, 3, 2, 1, 0]))
        (\<lambda>i. 1 / 4) (js ''Nurse'') (js ''astrology'') 3
      = Inr (js_replace_all role_patterns (js ''the '' @ js ''Nurse'' @ js '' role'') first # others)"
    by blast
  then have "first = js ''Tell me about yourself and your experience in this field.''"
    and "others = [js ''What's a technical challenge you recently solved? Walk me through your approach.'',
         js ''How do you stay current with industry trends and new technologies?'']"
    using s p by simp_all
  then show ?thesis using a r g e by simp
qed

end
